theory Spec2Isabelle
  imports Complex_Main "HOL-Library.Word"
begin

section \<open>JavaScript values\<close>

text \<open>
  The server is JavaScript: every number is an IEEE double. A number is modelled as a real
  or one of the three special values. A number read from text is rounded to the nearest
  double, as \<open>parseFloat\<close> does. The arithmetic on the class weights is exact: the
  rounding of their sums and quotients is left out, so \<open>0.33\<close> is the rational 33/100.
  The two zeros are one.
\<close>

datatype jsnum = NaN | NegInf | Fin real | PosInf

text \<open>
  A JavaScript string is a sequence of 16-bit code units. \<open>utf16\<close> writes an ASCII
  literal as its code units.
\<close>

type_synonym code_unit = "16 word"

type_synonym jsstring = "code_unit list"

definition cu :: "char \<Rightarrow> code_unit" where
  "cu c = of_char c"

definition utf16 :: "string \<Rightarrow> jsstring" where
  "utf16 s = map cu s"

text \<open>
  What \<open>express.json()\<close> can hand to the handler as \<open>req.body.features\<close>: a JSON
  value, or \<open>undefined\<close> when the field is absent. An object is its list of members in
  source order; a later member of the same name wins, as in \<open>JSON.parse\<close>. No JSON value
  is a function.
\<close>

datatype jsval =
    JUndefined
  | JNull
  | JBool bool
  | JNum jsnum
  | JStr jsstring
  | JArr "jsval list"
  | JObj "(jsstring \<times> jsval) list"

text \<open>The one exception the handler can meet.\<close>

datatype exn = TypeError

text \<open>The relational operators \<open><\<close> and \<open>></\<close> on numbers: false whenever a side is NaN.\<close>

fun js_less :: "jsnum \<Rightarrow> jsnum \<Rightarrow> bool" where
  "js_less NaN b = False"
| "js_less a NaN = False"
| "js_less (Fin a) (Fin b) = (a < b)"
| "js_less a NegInf = False"
| "js_less NegInf b = True"
| "js_less PosInf b = False"
| "js_less a PosInf = True"

definition js_greater :: "jsnum \<Rightarrow> jsnum \<Rightarrow> bool" where
  "js_greater a b = js_less b a"

definition isNaN :: "jsnum \<Rightarrow> bool" where
  "isNaN n = (n = NaN)"

text \<open>
  Reading position \<open>i\<close> of an array of numbers by destructuring: a position past the end
  gives \<open>undefined\<close>, which every comparison turns into NaN.
\<close>

definition destructure :: "jsnum list \<Rightarrow> nat \<Rightarrow> jsnum" where
  "destructure xs i = (if i < length xs then xs ! i else NaN)"

text \<open>\<open>xs[i]\<close> for an index computed at run time: \<open>undefined\<close> (None) outside the array.\<close>

definition js_at :: "'a list \<Rightarrow> int \<Rightarrow> 'a option" where
  "js_at xs i = (if 0 \<le> i \<and> i < int (length xs) then Some (xs ! nat i) else None)"

text \<open>\<open>Array.prototype.indexOf\<close>: the first position holding the value, -1 when there is none.\<close>

fun indexOf :: "'a list \<Rightarrow> 'a \<Rightarrow> int" where
  "indexOf [] v = -1"
| "indexOf (x # xs) v =
     (if x = v then 0 else (let r = indexOf xs v in if r < 0 then -1 else r + 1))"

text \<open>
  \<open>Math.max\<close> of one or more finite numbers. (Of no argument it is \<open>-Infinity\<close>; the
  program always passes three.)
\<close>

fun Math_max :: "real list \<Rightarrow> real" where
  "Math_max (x # xs) = foldl max x xs"

text \<open>
  \<open>Array.prototype.sort\<close> with a comparison function. ECMAScript requires the sort to be
  stable and, for a consistent comparison function, fixes the result: \<open>a\<close> comes before
  \<open>b\<close> when \<open>cmp a b < 0\<close>, and elements that compare 0 keep their order. Insertion from
  the right computes that result.
\<close>

fun insert_by :: "('a \<Rightarrow> 'a \<Rightarrow> real) \<Rightarrow> 'a \<Rightarrow> 'a list \<Rightarrow> 'a list" where
  "insert_by cmp x [] = [x]"
| "insert_by cmp x (y # ys) =
     (if cmp x y \<le> 0 then x # y # ys else y # insert_by cmp x ys)"

definition js_sort :: "('a \<Rightarrow> 'a \<Rightarrow> real) \<Rightarrow> 'a list \<Rightarrow> 'a list" where
  "js_sort cmp xs = foldr (insert_by cmp) xs []"

text \<open>\<open>xs.slice(0, n)\<close>.\<close>

definition slice0 :: "nat \<Rightarrow> 'a list \<Rightarrow> 'a list" where
  "slice0 n xs = take n xs"

section \<open>parseFloat\<close>

text \<open>
  \<open>parseFloat(v)\<close> turns \<open>v\<close> into a string, drops leading white space and line
  terminators and reads the longest prefix that is a decimal literal: an optional sign,
  then \<open>Infinity\<close>, or digits with an optional fraction and an optional exponent. Without
  such a prefix the result is NaN. Whatever follows the prefix is ignored.
\<close>

text \<open>
  White space and line terminators of ECMAScript: TAB, LF, VT, FF, CR, the space
  separators of Unicode (U+0020, U+00A0, U+1680, U+2000 to U+200A, U+202F, U+205F,
  U+3000), the separators U+2028 and U+2029, and U+FEFF.
\<close>

definition isWhiteSpace :: "code_unit \<Rightarrow> bool" where
  "isWhiteSpace c =
     (c \<in> set [0x0009, 0x000A, 0x000B, 0x000C, 0x000D, 0x0020, 0x00A0, 0x1680,
                0x2000, 0x2001, 0x2002, 0x2003, 0x2004, 0x2005, 0x2006, 0x2007,
                0x2008, 0x2009, 0x200A, 0x2028, 0x2029, 0x202F, 0x205F, 0x3000, 0xFEFF])"

definition isDigit :: "code_unit \<Rightarrow> bool" where
  "isDigit c = (c \<in> set (utf16 ''0123456789''))"

definition digitVal :: "code_unit \<Rightarrow> int" where
  "digitVal c = uint c - 48"

definition digitsVal :: "jsstring \<Rightarrow> int" where
  "digitsVal ds = foldl (\<lambda>n c. 10 * n + digitVal c) 0 ds"

text \<open>The exponent part at the head of \<open>s\<close>: \<open>e\<close> or \<open>E\<close>, an optional sign, at least one
  digit. When it is missing or incomplete the literal ends before it and the exponent is 0.\<close>

definition parseExponent :: "jsstring \<Rightarrow> int" where
  "parseExponent s =
     (case s of
        [] \<Rightarrow> 0
      | c # r \<Rightarrow>
          if c = cu CHR ''e'' \<or> c = cu CHR ''E'' then
            (case r of
               [] \<Rightarrow> 0
             | d # t \<Rightarrow>
                 if d = cu CHR ''+'' then
                   (if takeWhile isDigit t = [] then 0 else digitsVal (takeWhile isDigit t))
                 else if d = cu CHR ''-'' then
                   (if takeWhile isDigit t = [] then 0 else - digitsVal (takeWhile isDigit t))
                 else
                   (if takeWhile isDigit r = [] then 0 else digitsVal (takeWhile isDigit r)))
          else 0)"

text \<open>
  The Number value of a rational \<open>p / q\<close> (\<open>p\<close> not negative, \<open>q\<close> positive): the nearest
  double, ties to the even significand; a value too large for a double gives \<open>Infinity\<close>
  and one too small gives 0. \<open>binaryExponent p q\<close> is the integer part of the binary
  logarithm of \<open>p / q\<close>, \<open>bits n\<close> the number of binary digits of \<open>n\<close>. A double has 53
  significant bits and its least exponent is -1022, so the spacing of the doubles around
  \<open>p / q\<close> is \<open>pow2 (e - 52)\<close> for \<open>e\<close> the binary exponent, at least -1022; the
  double is the nearest multiple of that spacing. (ECMAScript lets an engine cut a literal
  of more than 20 significant digits to 20 before rounding; the engine of Node.js rounds
  the exact value, and so does the model.)
\<close>

function bits :: "int \<Rightarrow> nat" where
  "bits n = (if n \<le> 0 then 0 else Suc (bits (n div 2)))"
  by pat_completeness auto
termination
  by (relation "measure nat") auto

definition pow2 :: "int \<Rightarrow> real" where
  "pow2 e = (if 0 \<le> e then 2 ^ nat e else 1 / 2 ^ nat (- e))"

definition binaryExponent :: "int \<Rightarrow> int \<Rightarrow> int" where
  "binaryExponent p q =
     (let k = int (bits p) - int (bits q)
      in if (if 0 \<le> k then 2 ^ nat k * q \<le> p else q \<le> 2 ^ nat (- k) * p) then k else k - 1)"

text \<open>The integer nearest to \<open>n / d\<close> (\<open>n\<close> not negative, \<open>d\<close> positive), the even one of
  two equally near.\<close>

definition roundHalfEven :: "int \<Rightarrow> int \<Rightarrow> int" where
  "roundHalfEven n d =
     (let f = n div d; r = n mod d in
      if 2 * r < d then f
      else if d < 2 * r then f + 1
      else if even f then f else f + 1)"

definition toDouble :: "int \<Rightarrow> int \<Rightarrow> jsnum" where
  "toDouble p q =
     (if p = 0 then Fin 0
      else
        (let e = max (binaryExponent p q) (- 1022);
             s = e - 52;
             n = (if 0 \<le> s then roundHalfEven p (q * 2 ^ nat s)
                  else roundHalfEven (p * 2 ^ nat (- s)) q)
         in if 0 \<le> s \<and> 2 ^ 1024 \<le> n * 2 ^ nat s then PosInf
            else Fin (of_int n * pow2 s)))"

text \<open>The Number value of the decimal \<open>m * 10 ^ k\<close> (\<open>m\<close> not negative).\<close>

definition decimalToDouble :: "int \<Rightarrow> int \<Rightarrow> jsnum" where
  "decimalToDouble m k =
     (if 0 \<le> k then toDouble (m * 10 ^ nat k) 1 else toDouble m (10 ^ nat (- k)))"

definition parseUnsigned :: "jsstring \<Rightarrow> jsnum" where
  "parseUnsigned s =
     (if take 8 s = utf16 ''Infinity'' then PosInf
      else
        (let intPart = takeWhile isDigit s; r1 = dropWhile isDigit s in
         case r1 of
           [] \<Rightarrow> if intPart = [] then NaN else decimalToDouble (digitsVal intPart) 0
         | c # r2 \<Rightarrow>
             if c = cu CHR ''.'' then
               (let frac = takeWhile isDigit r2; r3 = dropWhile isDigit r2 in
                if intPart = [] \<and> frac = [] then NaN
                else decimalToDouble (digitsVal (intPart @ frac))
                       (parseExponent r3 - int (length frac)))
             else if intPart = [] then NaN
             else decimalToDouble (digitsVal intPart) (parseExponent r1)))"

fun js_negate :: "jsnum \<Rightarrow> jsnum" where
  "js_negate NaN = NaN"
| "js_negate NegInf = PosInf"
| "js_negate (Fin x) = Fin (- x)"
| "js_negate PosInf = NegInf"

definition parseFloat_str :: "jsstring \<Rightarrow> jsnum" where
  "parseFloat_str s =
     (case dropWhile isWhiteSpace s of
        [] \<Rightarrow> NaN
      | c # r \<Rightarrow>
          if c = cu CHR ''-'' then js_negate (parseUnsigned r)
          else if c = cu CHR ''+'' then parseUnsigned r
          else parseUnsigned (c # r))"

text \<open>
  \<open>parseFloat\<close> on a JSON value goes through \<open>ToString\<close>, which can throw. An object
  is converted by its method \<open>toString\<close>, then by \<open>valueOf\<close>. Without a member of its
  own called \<open>toString\<close> it inherits the method that returns \<open>"[object Object]"\<close>. With
  such a member, which is no function, \<open>toString\<close> is passed over; \<open>valueOf\<close> is either a
  member that is no function or the inherited method, which returns the object itself and
  not a primitive value; so the conversion throws a TypeError. An array is converted by
  \<open>join\<close>, which converts every element other than \<open>null\<close> and \<open>undefined\<close> and so
  throws when one of them does.
\<close>

fun ToString_throws :: "jsval \<Rightarrow> bool" where
  "ToString_throws (JObj kvs) = (utf16 ''toString'' \<in> set (map fst kvs))"
| "ToString_throws (JArr xs) = list_ex ToString_throws xs"
| "ToString_throws v = False"

text \<open>
  When nothing throws: a number prints to a literal that reads back as the same number
  (\<open>NaN\<close> to \<open>"NaN"\<close>, which has no literal prefix). \<open>null\<close>, \<open>undefined\<close>, booleans
  and objects print to \<open>"null"\<close>, \<open>"undefined"\<close>, \<open>"true"\<close>/\<open>"false"\<close> and
  \<open>"[object Object]"\<close>. An array prints its elements separated by commas, \<open>null\<close> and
  \<open>undefined\<close> elements as the empty string; a comma is no part of a literal and no
  white space, so what is read is what is read from the first element alone.
\<close>

fun parseFloat :: "jsval \<Rightarrow> exn + jsnum" where
  "parseFloat (JNum n) = Inr n"
| "parseFloat (JStr s) = Inr (parseFloat_str s)"
| "parseFloat JUndefined = Inr (parseFloat_str (utf16 ''undefined''))"
| "parseFloat JNull = Inr (parseFloat_str (utf16 ''null''))"
| "parseFloat (JBool b) = Inr (parseFloat_str (utf16 (if b then ''true'' else ''false'')))"
| "parseFloat (JObj kvs) =
     (if ToString_throws (JObj kvs) then Inl TypeError
      else Inr (parseFloat_str (utf16 ''[object Object]'')))"
| "parseFloat (JArr []) = Inr (parseFloat_str [])"
| "parseFloat (JArr (x # xs)) =
     (if ToString_throws (JArr (x # xs)) then Inl TypeError
      else (case x of JNull \<Rightarrow> Inr NaN | JUndefined \<Rightarrow> Inr NaN | _ \<Rightarrow> parseFloat x))"

text \<open>\<open>xs.map(f)\<close> for an \<open>f\<close> that can throw: the elements are visited in order and the
  first exception ends the call.\<close>

fun js_map :: "('a \<Rightarrow> exn + 'b) \<Rightarrow> 'a list \<Rightarrow> exn + 'b list" where
  "js_map f [] = Inr []"
| "js_map f (x # xs) =
     (case f x of
        Inl e \<Rightarrow> Inl e
      | Inr y \<Rightarrow> (case js_map f xs of Inl e \<Rightarrow> Inl e | Inr ys \<Rightarrow> Inr (y # ys)))"

section \<open>The prediction function\<close>

text \<open>
  One entry of the feature-importance list: the object
  \<open>{feature, importance, value}\<close> (the field \<open>value\<close> is called \<open>val\<close> here).
  \<open>feature\<close> is \<open>featureNames[index]\<close>, which is \<open>undefined\<close> (None) past the ninth name.
\<close>

record shap =
  feature :: "string option"
  importance :: real
  val :: jsnum

text \<open>The object \<open>mockPredict\<close> returns. \<open>probabilities\<close> is the object literal with its
  three keys in source order.\<close>

record prediction =
  predicted_class :: "string option"
  probabilities :: "(string \<times> real) list"
  top_features :: "shap list"

definition featureNames :: "string list" where
  "featureNames =
     [''koi_period'', ''koi_prad'', ''koi_sma'', ''koi_incl'',
      ''koi_teq'', ''koi_slogg'', ''koi_srad'', ''koi_smass'', ''koi_steff'']"

text \<open>
  The random source is the sequence of results of the successive calls of
  \<open>Math.random()\<close> while the request is served: \<open>rnd k\<close> is what call number \<open>k\<close>
  returns. \<open>features.map\<close> visits the positions in order and its callback calls
  \<open>Math.random()\<close> once, so position \<open>index\<close> receives \<open>rnd index\<close>.
\<close>

definition shapValues :: "jsnum list \<Rightarrow> (nat \<Rightarrow> real) \<Rightarrow> shap list" where
  "shapValues features rnd =
     map (\<lambda>(index, v).
            \<lparr>feature = js_at featureNames (int index),
             importance = (rnd index - 0.5) * 2,
             val = v\<rparr>)
         (zip [0..<length features] features)"

definition byAbsImportance :: "shap \<Rightarrow> shap \<Rightarrow> real" where
  "byAbsImportance a b = \<bar>importance b\<bar> - \<bar>importance a\<bar>"

definition mockPredict :: "jsnum list \<Rightarrow> (nat \<Rightarrow> real) \<Rightarrow> prediction" where
  "mockPredict features rnd =
     (let koi_period = destructure features 0;
          koi_prad = destructure features 1;
          koi_teq = destructure features 4;
          confirmedProb = 0.33;
          candidateProb = 0.33;
          falsePositiveProb = 0.34;
          confirmedProb =
            (if js_greater koi_prad (Fin 0.5) \<and> js_less koi_prad (Fin 4) \<and>
                js_greater koi_teq (Fin 200) \<and> js_less koi_teq (Fin 400)
             then confirmedProb + 0.2 else confirmedProb);
          falsePositiveProb =
            (if js_greater koi_prad (Fin 10) then falsePositiveProb + 0.3
             else falsePositiveProb);
          falsePositiveProb =
            (if js_less koi_period (Fin 1) then falsePositiveProb + 0.2
             else falsePositiveProb);
          total = confirmedProb + candidateProb + falsePositiveProb;
          confirmedProb = confirmedProb / total;
          candidateProb = candidateProb / total;
          falsePositiveProb = falsePositiveProb / total;
          probs = [confirmedProb, candidateProb, falsePositiveProb];
          labels = [''Confirmed'', ''Candidate'', ''False Positive''];
          maxIndex = indexOf probs (Math_max probs);
          predictedLabel = js_at labels maxIndex;
          topFeatures = slice0 3 (js_sort byAbsImportance (shapValues features rnd))
      in \<lparr>predicted_class = predictedLabel,
          probabilities =
            [(''Confirmed'', confirmedProb),
             (''Candidate'', candidateProb),
             (''False Positive'', falsePositiveProb)],
          top_features = topFeatures\<rparr>)"

section \<open>The /predict endpoint\<close>

text \<open>
  A response is its HTTP status and the object handed to \<open>res.json\<close>: an error object
  with its message, or the prediction. (The body of the 500 response also carries the
  message of the exception that was caught; that text belongs to the JavaScript engine and
  is not modelled.)
\<close>

datatype body = Error string | Prediction prediction

record response =
  status :: nat
  json :: body

definition ShapeError :: response where
  "ShapeError = \<lparr>status = 400, json = Error ''Invalid input: Expected 9 features''\<rparr>"

definition NotNumericError :: response where
  "NotNumericError = \<lparr>status = 400, json = Error ''All features must be numeric values''\<rparr>"

definition PredictionFailed :: response where
  "PredictionFailed = \<lparr>status = 500, json = Error ''Prediction failed''\<rparr>"

text \<open>\<open>!v\<close> is true for the falsy values.\<close>

fun truthy :: "jsval \<Rightarrow> bool" where
  "truthy JUndefined = False"
| "truthy JNull = False"
| "truthy (JBool b) = b"
| "truthy (JNum n) = (n \<noteq> NaN \<and> n \<noteq> Fin 0)"
| "truthy (JStr s) = (s \<noteq> [])"
| "truthy (JArr xs) = True"
| "truthy (JObj kvs) = True"

text \<open>
  \<open>v.length\<close> for a truthy \<open>v\<close>: the number of elements of an array, the length of a
  string, the member \<open>length\<close> of an object if it has one, \<open>undefined\<close> otherwise.
  (On \<open>null\<close> and \<open>undefined\<close> the access would throw; the handler reads it only from a
  truthy value.)
\<close>

fun get_length :: "jsval \<Rightarrow> jsval" where
  "get_length (JArr xs) = JNum (Fin (real (length xs)))"
| "get_length (JStr s) = JNum (Fin (real (length s)))"
| "get_length (JObj kvs) =
     (case map_of (rev kvs) (utf16 ''length'') of None \<Rightarrow> JUndefined | Some v \<Rightarrow> v)"
| "get_length v = JUndefined"

text \<open>
  The handler of \<open>POST /predict\<close>, applied to the member \<open>features\<close> of the parsed
  request body (\<open>JUndefined\<close> when the body has no such member). Only an array has a
  method \<open>map\<close>: on a string or an object that passed the length test the call throws a
  TypeError. That exception, and one thrown by \<open>parseFloat\<close> inside \<open>map\<close>, is
  answered by the \<open>catch\<close> block with status 500.
\<close>

definition predict_handler :: "jsval \<Rightarrow> (nat \<Rightarrow> real) \<Rightarrow> response" where
  "predict_handler features rnd =
     (if \<not> truthy features \<or> get_length features \<noteq> JNum (Fin 9) then ShapeError
      else
        (case features of
           JArr fs \<Rightarrow>
             (case js_map parseFloat fs of
                Inl e \<Rightarrow> PredictionFailed
              | Inr numericFeatures \<Rightarrow>
                  if list_ex isNaN numericFeatures then NotNumericError
                  else \<lparr>status = 200, json = Prediction (mockPredict numericFeatures rnd)\<rparr>)
         | _ \<Rightarrow> PredictionFailed))"

section \<open>The scoring rules as the specification words them\<close>

text \<open>
  A feature vector of the specification is nine finite reals in the order of
  \<open>featureNames\<close>: position 0 is \<open>koi_period\<close>, 1 is \<open>koi_prad\<close>, 4 is \<open>koi_teq\<close>.
  The three weights start at 0.33, 0.33 and 0.34; each rule adds its bonus to one weight
  when its guard holds; each weight is then divided by the sum of the three.
\<close>

definition spec_weights :: "real list \<Rightarrow> real \<times> real \<times> real" where
  "spec_weights v =
     (0.33 + (if 0.5 < v ! 1 \<and> v ! 1 < 4 \<and> 200 < v ! 4 \<and> v ! 4 < 400 then 0.20 else 0),
      0.33,
      0.34 + (if v ! 1 > 10 then 0.30 else 0) + (if v ! 0 < 1 then 0.20 else 0))"

definition spec_distribution :: "real list \<Rightarrow> (string \<times> real) list" where
  "spec_distribution v =
     (case spec_weights v of
        (c, d, f) \<Rightarrow>
          [(''Confirmed'', c / (c + d + f)),
           (''Candidate'', d / (c + d + f)),
           (''False Positive'', f / (c + d + f))])"

section \<open>The grammar of decimal literals\<close>

text \<open>
  The literals \<open>parseFloat\<close> looks for, as the grammar of ECMAScript gives them
  (\<open>StrDecimalLiteral\<close>): an optional sign before \<open>Infinity\<close>, or before digits, a point
  and optional digits, or a point and digits, or digits, the last three with an optional
  exponent part.
\<close>

definition DecimalDigits :: "jsstring \<Rightarrow> bool" where
  "DecimalDigits ds = (ds \<noteq> [] \<and> list_all isDigit ds)"

inductive SignedInteger :: "jsstring \<Rightarrow> bool" where
  "DecimalDigits ds \<Longrightarrow> SignedInteger ds"
| "DecimalDigits ds \<Longrightarrow> SignedInteger (cu CHR ''+'' # ds)"
| "DecimalDigits ds \<Longrightarrow> SignedInteger (cu CHR ''-'' # ds)"

inductive ExponentPart :: "jsstring \<Rightarrow> bool" where
  "SignedInteger n \<Longrightarrow> ExponentPart (cu CHR ''e'' # n)"
| "SignedInteger n \<Longrightarrow> ExponentPart (cu CHR ''E'' # n)"

definition optional :: "(jsstring \<Rightarrow> bool) \<Rightarrow> jsstring \<Rightarrow> bool" where
  "optional part s = (s = [] \<or> part s)"

inductive StrUnsignedDecimalLiteral :: "jsstring \<Rightarrow> bool" where
  "StrUnsignedDecimalLiteral (utf16 ''Infinity'')"
| "DecimalDigits a \<Longrightarrow> optional DecimalDigits b \<Longrightarrow> optional ExponentPart e
   \<Longrightarrow> StrUnsignedDecimalLiteral (a @ cu CHR ''.'' # b @ e)"
| "DecimalDigits b \<Longrightarrow> optional ExponentPart e
   \<Longrightarrow> StrUnsignedDecimalLiteral (cu CHR ''.'' # b @ e)"
| "DecimalDigits a \<Longrightarrow> optional ExponentPart e \<Longrightarrow> StrUnsignedDecimalLiteral (a @ e)"

inductive StrDecimalLiteral :: "jsstring \<Rightarrow> bool" where
  "StrUnsignedDecimalLiteral u \<Longrightarrow> StrDecimalLiteral u"
| "StrUnsignedDecimalLiteral u \<Longrightarrow> StrDecimalLiteral (cu CHR ''+'' # u)"
| "StrUnsignedDecimalLiteral u \<Longrightarrow> StrDecimalLiteral (cu CHR ''-'' # u)"

text \<open>A string has a literal prefix when it is a literal followed by anything.\<close>

definition hasLiteralPrefix :: "jsstring \<Rightarrow> bool" where
  "hasLiteralPrefix t = (\<exists>l r. t = l @ r \<and> StrDecimalLiteral l)"

section \<open>Orders and example inputs\<close>

text \<open>The enumeration order of the three classes.\<close>

definition class_order :: "string list" where
  "class_order = [''Confirmed'', ''Candidate'', ''False Positive'']"

text \<open>The position of a feature name in the fixed order.\<close>

definition feature_pos :: "string option \<Rightarrow> int" where
  "feature_pos n = (case n of None \<Rightarrow> -1 | Some s \<Rightarrow> indexOf featureNames s)"

text \<open>
  Ranking order of two entries: the first has the greater absolute importance, or the same
  and the earlier feature.
\<close>

definition ranks_before :: "shap \<Rightarrow> shap \<Rightarrow> bool" where
  "ranks_before a b =
     (\<bar>importance b\<bar> < \<bar>importance a\<bar> \<or>
      \<bar>importance b\<bar> = \<bar>importance a\<bar> \<and> feature_pos (feature a) < feature_pos (feature b))"

text \<open>The example input of the specification, and variants of it.\<close>

definition example_features :: "jsval list" where
  "example_features =
     [JNum (Fin 10), JNum (Fin 2), JNum (Fin 0.1), JNum (Fin 85), JNum (Fin 300),
      JNum (Fin 4.5), JNum (Fin 1), JNum (Fin 1), JNum (Fin 5500)]"

definition example_numbers :: "jsnum list" where
  "example_numbers =
     [Fin 10, Fin 2, Fin 0.1, Fin 85, Fin 300, Fin 4.5, Fin 1, Fin 1, Fin 5500]"

definition infinity_features :: "jsval list" where
  "infinity_features =
     [JStr (utf16 ''Infinity''), JNum (Fin 2), JNum (Fin 0.1), JNum (Fin 85), JNum (Fin 300),
      JNum (Fin 4.5), JNum (Fin 1), JNum (Fin 1), JNum (Fin 5500)]"

definition abc_features :: "jsval list" where
  "abc_features =
     [JStr (utf16 ''abc''), JNum (Fin 2), JNum (Fin 0.1), JNum (Fin 85), JNum (Fin 300),
      JNum (Fin 4.5), JNum (Fin 1), JNum (Fin 1), JNum (Fin 5500)]"

text \<open>An input whose first element is the object \<open>{"toString": 1}\<close>.\<close>

definition toString_features :: "jsval list" where
  "toString_features =
     [JObj [(utf16 ''toString'', JNum (Fin 1))], JNum (Fin 2), JNum (Fin 0.1), JNum (Fin 85),
      JNum (Fin 300), JNum (Fin 4.5), JNum (Fin 1), JNum (Fin 1), JNum (Fin 5500)]"

text \<open>Two random sources: one whose every draw is 0, the least value \<open>Math.random()\<close>
  can return, and one that steps through 0, 0.1, ..., 0.9.\<close>

definition zero_draws :: "nat \<Rightarrow> real" where
  "zero_draws k = 0"

definition tenth_draws :: "nat \<Rightarrow> real" where
  "tenth_draws k = real (k mod 10) / 10"

section \<open>Facts about the JavaScript primitives\<close>

lemma foldl_max_ge: "(a::real) \<le> foldl max a xs"
proof (induction xs arbitrary: a)
  case Nil
  show ?case by simp
next
  case (Cons y ys)
  have "a \<le> max a y" by simp
  also have "max a y \<le> foldl max (max a y) ys" by (rule Cons.IH)
  finally show ?case by simp
qed

lemma foldl_max_upper: "x \<in> set xs \<Longrightarrow> x \<le> foldl max (a::real) xs"
proof (induction xs arbitrary: a)
  case Nil
  then show ?case by simp
next
  case (Cons y ys)
  show ?case
  proof (cases "x = y")
    case True
    have "y \<le> max a y" by simp
    also have "max a y \<le> foldl max (max a y) ys" by (rule foldl_max_ge)
    finally show ?thesis using True by simp
  next
    case False
    with Cons.prems have "x \<in> set ys" by simp
    then show ?thesis using Cons.IH by simp
  qed
qed

lemma foldl_max_in: "foldl max (a::real) xs \<in> set (a # xs)"
proof (induction xs arbitrary: a)
  case Nil
  show ?case by simp
next
  case (Cons y ys)
  have ih: "foldl max (max a y) ys \<in> set (max a y # ys)" by (rule Cons.IH)
  have "max a y = a \<or> max a y = y" by (simp add: max_def)
  then show ?case
  proof
    assume "max a y = a"
    with ih show ?thesis by auto
  next
    assume "max a y = y"
    with ih show ?thesis by auto
  qed
qed

lemma Math_max_in: "xs \<noteq> [] \<Longrightarrow> Math_max xs \<in> set xs"
  using foldl_max_in by (cases xs) simp_all

lemma Math_max_ge: "x \<in> set xs \<Longrightarrow> x \<le> Math_max xs"
  using foldl_max_ge foldl_max_upper by (cases xs) auto

lemma indexOf_range: "v \<in> set xs \<Longrightarrow> 0 \<le> indexOf xs v \<and> indexOf xs v < int (length xs)"
  by (induction xs) (auto simp: Let_def)

lemma indexOf_nth: "v \<in> set xs \<Longrightarrow> xs ! nat (indexOf xs v) = v"
  by (induction xs) (auto simp: Let_def nat_add_distrib dest: indexOf_range)

lemma indexOf_first: "v \<in> set xs \<Longrightarrow> j < nat (indexOf xs v) \<Longrightarrow> xs ! j \<noteq> v"
proof (induction xs arbitrary: j)
  case Nil
  then show ?case by simp
next
  case (Cons x xs)
  show ?case
  proof (cases "x = v")
    case True
    with Cons.prems show ?thesis by simp
  next
    case False
    with Cons.prems have v: "v \<in> set xs" by simp
    from indexOf_range [OF v] have r: "0 \<le> indexOf xs v" by simp
    show ?thesis
    proof (cases j)
      case 0
      with False show ?thesis by simp
    next
      case (Suc k)
      with Cons.prems False r have "k < nat (indexOf xs v)"
        by (simp add: Let_def nat_add_distrib split: if_splits)
      with Cons.IH [OF v] Suc show ?thesis by simp
    qed
  qed
qed

lemma mockPredict_shape:
  "\<exists>c f. 0.33 \<le> c \<and> 0.34 \<le> f \<and>
     probabilities (mockPredict fs rnd) =
       [(''Confirmed'', c / (c + 0.33 + f)), (''Candidate'', 0.33 / (c + 0.33 + f)),
        (''False Positive'', f / (c + 0.33 + f))] \<and>
     predicted_class (mockPredict fs rnd) =
       js_at [''Confirmed'', ''Candidate'', ''False Positive'']
         (indexOf [c / (c + 0.33 + f), 0.33 / (c + 0.33 + f), f / (c + 0.33 + f)]
            (Math_max [c / (c + 0.33 + f), 0.33 / (c + 0.33 + f), f / (c + 0.33 + f)]))"
  unfolding mockPredict_def Let_def
  apply (rule exI [where x = "if js_greater (destructure fs 1) (Fin 0.5) \<and> js_less (destructure fs 1) (Fin 4) \<and>
                js_greater (destructure fs 4) (Fin 200) \<and> js_less (destructure fs 4) (Fin 400)
             then 0.33 + 0.2 else 0.33"])
  apply (rule exI [where x = "if js_less (destructure fs 0) (Fin 1)
      then (if js_greater (destructure fs 1) (Fin 10) then 0.34 + 0.3 else 0.34) + 0.2
      else (if js_greater (destructure fs 1) (Fin 10) then 0.34 + 0.3 else 0.34)"])
  apply (intro conjI)
  apply simp
   apply simp
   apply simp
  apply simp
  done

lemma argmax_first:
  assumes "xs \<noteq> []"
  defines "i \<equiv> nat (indexOf xs (Math_max xs))"
  shows "indexOf xs (Math_max xs) = int i" and "i < length xs"
    and "\<And>j. j < length xs \<Longrightarrow> xs ! j \<le> xs ! i"
    and "\<And>j. j < i \<Longrightarrow> xs ! j < xs ! i"
proof -
  from assms(1) have m: "Math_max xs \<in> set xs" by (rule Math_max_in)
  from indexOf_range [OF m] show r: "indexOf xs (Math_max xs) = int i" and l: "i < length xs"
    unfolding i_def by (simp, arith)
  from indexOf_nth [OF m] have n: "xs ! i = Math_max xs" by (simp add: i_def)
  show ge: "\<And>j. j < length xs \<Longrightarrow> xs ! j \<le> xs ! i"
    unfolding n by (rule Math_max_ge) simp
  fix j assume j: "j < i"
  with l have "j < length xs" by simp
  then have "xs ! j \<le> xs ! i" by (rule ge)
  moreover from indexOf_first [OF m] j have "xs ! j \<noteq> xs ! i"
    unfolding n by (simp add: i_def)
  ultimately show "xs ! j < xs ! i" by simp
qed

lemma destructure_Fin: "i < length v \<Longrightarrow> destructure (map Fin v) i = Fin (v ! i)"
  by (simp add: destructure_def)

section \<open>Facts about sorting and the importance list\<close>

lemma set_insert_by: "set (insert_by cmp x ys) = insert x (set ys)"
  by (induction ys) auto

lemma length_insert_by: "length (insert_by cmp x ys) = Suc (length ys)"
  by (induction ys) auto

lemma set_js_sort: "set (js_sort cmp xs) = set xs"
  by (induction xs) (simp_all add: js_sort_def set_insert_by)

lemma length_js_sort: "length (js_sort cmp xs) = length xs"
  by (induction xs) (simp_all add: js_sort_def length_insert_by)

lemma ranks_before_insert:
  assumes "sorted_wrt ranks_before ys"
    and "\<And>y. y \<in> set ys \<Longrightarrow> feature_pos (feature x) < feature_pos (feature y)"
  shows "sorted_wrt ranks_before (insert_by byAbsImportance x ys)"
  using assms
proof (induction ys)
  case Nil
  show ?case by simp
next
  case (Cons y ys)
  show ?case
  proof (cases "byAbsImportance x y \<le> 0")
    case True
    then have xy: "\<bar>importance y\<bar> \<le> \<bar>importance x\<bar>" by (simp add: byAbsImportance_def)
    have "ranks_before x z" if z: "z \<in> set (y # ys)" for z
    proof -
      from z Cons.prems(1) have "\<bar>importance z\<bar> \<le> \<bar>importance y\<bar>"
        by (auto simp: ranks_before_def)
      with xy have "\<bar>importance z\<bar> \<le> \<bar>importance x\<bar>" by simp
      moreover from z have "feature_pos (feature x) < feature_pos (feature z)"
        by (rule Cons.prems(2))
      ultimately show ?thesis by (auto simp: ranks_before_def)
    qed
    with True Cons.prems(1) show ?thesis by simp
  next
    case False
    then have "ranks_before y x" by (simp add: byAbsImportance_def ranks_before_def)
    moreover from Cons.prems have "sorted_wrt ranks_before (insert_by byAbsImportance x ys)"
      by (intro Cons.IH) simp_all
    ultimately show ?thesis using False Cons.prems(1) by (auto simp: set_insert_by)
  qed
qed

lemma ranks_before_js_sort:
  "sorted_wrt (\<lambda>a b. feature_pos (feature a) < feature_pos (feature b)) xs
   \<Longrightarrow> sorted_wrt ranks_before (js_sort byAbsImportance xs)"
proof (induction xs)
  case Nil
  show ?case by (simp add: js_sort_def)
next
  case (Cons x xs)
  from Cons.prems have "sorted_wrt ranks_before (js_sort byAbsImportance xs)"
    by (intro Cons.IH) simp
  moreover from Cons.prems
  have "feature_pos (feature x) < feature_pos (feature y)"
    if "y \<in> set (js_sort byAbsImportance xs)" for y
    using that by (simp add: set_js_sort)
  ultimately have "sorted_wrt ranks_before
      (insert_by byAbsImportance x (js_sort byAbsImportance xs))"
    by (rule ranks_before_insert)
  then show ?case by (simp add: js_sort_def)
qed

lemma length_shapValues: "length (shapValues fs rnd) = length fs"
  by (simp add: shapValues_def)

lemma nth_shapValues:
  "i < length fs \<Longrightarrow>
   shapValues fs rnd ! i =
     \<lparr>feature = js_at featureNames (int i), importance = (rnd i - 0.5) * 2, val = fs ! i\<rparr>"
  by (simp add: shapValues_def)

lemma feature_pos_name: "i < 9 \<Longrightarrow> feature_pos (js_at featureNames (int i)) = int i"
proof -
  assume "i < 9"
  then have "i = 0 \<or> i = 1 \<or> i = 2 \<or> i = 3 \<or> i = 4 \<or> i = 5 \<or> i = 6 \<or> i = 7 \<or> i = 8"
    by arith
  then show ?thesis
    by (elim disjE) (simp_all add: feature_pos_def js_at_def featureNames_def)
qed

lemma shapValues_in_order:
  assumes "length fs \<le> 9"
  shows "sorted_wrt (\<lambda>a b. feature_pos (feature a) < feature_pos (feature b)) (shapValues fs rnd)"
  unfolding sorted_wrt_iff_nth_less
proof (intro allI impI)
  fix i j
  assume ij: "i < j" and j: "j < length (shapValues fs rnd)"
  with assms have "i < length fs" "j < length fs" "i < 9" "j < 9"
    by (simp_all add: length_shapValues)
  then show "feature_pos (feature (shapValues fs rnd ! i))
      < feature_pos (feature (shapValues fs rnd ! j))"
    using ij by (simp add: nth_shapValues feature_pos_name)
qed

lemma top_features_mockPredict:
  "top_features (mockPredict fs rnd) = take 3 (js_sort byAbsImportance (shapValues fs rnd))"
  by (simp add: mockPredict_def Let_def slice0_def)

lemma importance_bounds:
  assumes "0 \<le> r" "r < (1::real)"
  shows "- 1 \<le> (r - 0.5) * 2 \<and> (r - 0.5) * 2 < 1"
  using assms by simp

lemma in_shapValues:
  assumes "c \<in> set (shapValues fs rnd)"
  obtains i where "i < length fs"
    and "c = \<lparr>feature = js_at featureNames (int i), importance = (rnd i - 0.5) * 2, val = fs ! i\<rparr>"
proof -
  from assms obtain i where "i < length (shapValues fs rnd)" "c = shapValues fs rnd ! i"
    by (auto simp: in_set_conv_nth)
  then have "i < length fs"
    "c = \<lparr>feature = js_at featureNames (int i), importance = (rnd i - 0.5) * 2, val = fs ! i\<rparr>"
    by (simp_all add: length_shapValues nth_shapValues)
  then show thesis by (rule that)
qed

lemma top_features_subset:
  "set (top_features (mockPredict fs rnd)) \<subseteq> set (shapValues fs rnd)"
proof -
  have "set (take 3 (js_sort byAbsImportance (shapValues fs rnd)))
      \<subseteq> set (js_sort byAbsImportance (shapValues fs rnd))"
    by (rule set_take_subset)
  then show ?thesis by (simp add: top_features_mockPredict set_js_sort)
qed

section \<open>Facts about parseFloat\<close>

lemma toDouble_not_NaN: "toDouble p q \<noteq> NaN"
  by (simp add: toDouble_def Let_def)

lemma decimalToDouble_not_NaN: "decimalToDouble m k \<noteq> NaN"
  by (simp add: decimalToDouble_def toDouble_not_NaN)

lemma digit_not_special:
  assumes "isDigit c"
  shows "c \<noteq> cu CHR ''.''" "c \<noteq> cu CHR ''+''" "c \<noteq> cu CHR ''-''" "c \<noteq> cu CHR ''I''"
    "\<not> isWhiteSpace c"
  using assms by (auto simp: isDigit_def utf16_def cu_def isWhiteSpace_def)

lemma point_not_digit: "\<not> isDigit (cu CHR ''.'')"
  by (simp add: isDigit_def utf16_def cu_def)

lemma parseUnsigned_Infinity: "parseUnsigned (utf16 ''Infinity'' @ r) = PosInf"
  by (simp add: parseUnsigned_def utf16_def)

lemma parseUnsigned_NaN:
  "(parseUnsigned s = NaN) =
     (take 8 s \<noteq> utf16 ''Infinity'' \<and> takeWhile isDigit s = [] \<and>
      (case dropWhile isDigit s of
         [] \<Rightarrow> True
       | c # r2 \<Rightarrow> c = cu CHR ''.'' \<longrightarrow> takeWhile isDigit r2 = []))"
proof (cases "take 8 s = utf16 ''Infinity''")
  case True
  then show ?thesis by (simp add: parseUnsigned_def)
next
  case False
  show ?thesis
  proof (cases "dropWhile isDigit s")
    case Nil
    show ?thesis
      unfolding parseUnsigned_def Let_def Nil using False
      by (simp add: decimalToDouble_not_NaN)
  next
    case (Cons c r2)
    show ?thesis
      unfolding parseUnsigned_def Let_def Cons using False
      by (simp add: decimalToDouble_not_NaN)
  qed
qed

lemma takeWhile_digit_Nil: "(takeWhile isDigit t = []) = (t = [] \<or> \<not> isDigit (hd t))"
  by (cases t) simp_all

lemma parseUnsigned_digit:
  assumes "isDigit d"
  shows "parseUnsigned (d # t) \<noteq> NaN"
  using assms unfolding parseUnsigned_NaN takeWhile_digit_Nil by simp

lemma parseUnsigned_point:
  assumes "isDigit d"
  shows "parseUnsigned (cu CHR ''.'' # d # t) \<noteq> NaN"
proof -
  have dw: "dropWhile isDigit (cu CHR ''.'' # d # t) = cu CHR ''.'' # d # t"
    by (simp add: point_not_digit)
  from assms show ?thesis
    unfolding parseUnsigned_NaN dw takeWhile_digit_Nil by simp
qed

lemma parseUnsigned_shape:
  assumes "parseUnsigned t \<noteq> NaN"
  shows "take 8 t = utf16 ''Infinity'' \<or> (\<exists>d r. t = d # r \<and> isDigit d)
       \<or> (\<exists>d r. t = cu CHR ''.'' # d # r \<and> isDigit d)"
proof (cases "take 8 t = utf16 ''Infinity''")
  case True
  then show ?thesis by simp
next
  case False
  show ?thesis
  proof (cases "takeWhile isDigit t = []")
    case ne: False
    then have "t \<noteq> []" "isDigit (hd t)" by (simp_all add: takeWhile_digit_Nil)
    then have "t = hd t # tl t \<and> isDigit (hd t)" by simp
    then show ?thesis by blast
  next
    case True
    then have whole: "dropWhile isDigit t = t"
      using takeWhile_dropWhile_id [of isDigit t] by simp
    from assms False True obtain r2 where
      r2: "dropWhile isDigit t = cu CHR ''.'' # r2" and f: "takeWhile isDigit r2 \<noteq> []"
      unfolding parseUnsigned_NaN by (auto split: list.splits)
    from f have "r2 \<noteq> []" "isDigit (hd r2)" by (simp_all add: takeWhile_digit_Nil)
    then have "r2 = hd r2 # tl r2" by simp
    with r2 whole have "t = cu CHR ''.'' # hd r2 # tl r2" by simp
    with \<open>isDigit (hd r2)\<close> show ?thesis by blast
  qed
qed

text \<open>Every unsigned literal is \<open>Infinity\<close> or starts with a digit or with a point and a digit.\<close>

lemma DecimalDigits_Cons: "DecimalDigits a \<Longrightarrow> \<exists>d r. a = d # r \<and> isDigit d"
  by (cases a) (simp_all add: DecimalDigits_def)

lemma literal_head:
  assumes "StrUnsignedDecimalLiteral l"
  shows "l = utf16 ''Infinity'' \<or> (\<exists>d r. l = d # r \<and> isDigit d)
       \<or> (\<exists>d r. l = cu CHR ''.'' # d # r \<and> isDigit d)"
  using assms
proof cases
  case 1
  then show ?thesis by simp
next
  case (2 a b e)
  from DecimalDigits_Cons [OF 2(2)] obtain d r where "a = d # r" "isDigit d" by blast
  with 2(1) show ?thesis by simp
next
  case (3 b e)
  from DecimalDigits_Cons [OF 3(2)] obtain d r where "b = d # r" "isDigit d" by blast
  with 3(1) show ?thesis by simp
next
  case (4 a e)
  from DecimalDigits_Cons [OF 4(2)] obtain d r where "a = d # r" "isDigit d" by blast
  with 4(1) show ?thesis by simp
qed

lemma literal_parses:
  assumes "StrUnsignedDecimalLiteral l"
  shows "parseUnsigned (l @ r) \<noteq> NaN"
proof -
  from literal_head [OF assms] consider
    "l = utf16 ''Infinity''" | d t where "l = d # t" "isDigit d"
    | d t where "l = cu CHR ''.'' # d # t" "isDigit d"
    by blast
  then show ?thesis
  proof cases
    case 1
    then show ?thesis by (simp add: parseUnsigned_Infinity)
  next
    case 2
    then show ?thesis by (simp add: parseUnsigned_digit)
  next
    case 3
    then show ?thesis by (simp add: parseUnsigned_point)
  qed
qed

lemma parse_has_literal:
  assumes "parseUnsigned t \<noteq> NaN"
  shows "\<exists>l r. t = l @ r \<and> StrUnsignedDecimalLiteral l"
proof -
  from parseUnsigned_shape [OF assms] consider
    "take 8 t = utf16 ''Infinity''" | d r where "t = d # r" "isDigit d"
    | d r where "t = cu CHR ''.'' # d # r" "isDigit d"
    by blast
  then show ?thesis
  proof cases
    case 1
    have "t = take 8 t @ drop 8 t" by simp
    with 1 have "t = utf16 ''Infinity'' @ drop 8 t" by simp
    moreover have "StrUnsignedDecimalLiteral (utf16 ''Infinity'')"
      by (rule StrUnsignedDecimalLiteral.intros)
    ultimately show ?thesis by blast
  next
    case 2
    from 2(2) have "DecimalDigits [d]" by (simp add: DecimalDigits_def)
    moreover have "optional ExponentPart []" by (simp add: optional_def)
    ultimately have "StrUnsignedDecimalLiteral ([d] @ [])"
      by (rule StrUnsignedDecimalLiteral.intros(4))
    moreover from 2(1) have "t = ([d] @ []) @ r" by simp
    ultimately show ?thesis by blast
  next
    case 3
    from 3(2) have "DecimalDigits [d]" by (simp add: DecimalDigits_def)
    moreover have "optional ExponentPart []" by (simp add: optional_def)
    ultimately have "StrUnsignedDecimalLiteral (cu CHR ''.'' # [d] @ [])"
      by (rule StrUnsignedDecimalLiteral.intros(3))
    moreover from 3(1) have "t = (cu CHR ''.'' # [d] @ []) @ r" by simp
    ultimately show ?thesis by blast
  qed
qed

lemma parseUnsigned_NaN_iff:
  "(parseUnsigned t = NaN) = (\<not> (\<exists>l r. t = l @ r \<and> StrUnsignedDecimalLiteral l))"
  using parse_has_literal [of t] literal_parses by blast

lemma literal_not_signed:
  assumes "StrUnsignedDecimalLiteral l"
  shows "l \<noteq> []" "hd l \<noteq> cu CHR ''+''" "hd l \<noteq> cu CHR ''-''" "\<not> isWhiteSpace (hd l)"
proof -
  from literal_head [OF assms] consider
    "l = utf16 ''Infinity''" | d t where "l = d # t" "isDigit d"
    | d t where "l = cu CHR ''.'' # d # t" "isDigit d"
    by blast
  then have "l \<noteq> [] \<and> hd l \<noteq> cu CHR ''+'' \<and> hd l \<noteq> cu CHR ''-'' \<and> \<not> isWhiteSpace (hd l)"
  proof cases
    case 1
    then show ?thesis by (simp add: utf16_def cu_def isWhiteSpace_def)
  next
    case 2
    then show ?thesis by (simp add: digit_not_special)
  next
    case 3
    then show ?thesis by (simp add: cu_def isWhiteSpace_def)
  qed
  then show "l \<noteq> []" "hd l \<noteq> cu CHR ''+''" "hd l \<noteq> cu CHR ''-''" "\<not> isWhiteSpace (hd l)"
    by simp_all
qed

lemma hasLiteralPrefix_unsigned:
  assumes "c \<noteq> cu CHR ''+''" "c \<noteq> cu CHR ''-''"
  shows "hasLiteralPrefix (c # r) = (\<exists>l t. c # r = l @ t \<and> StrUnsignedDecimalLiteral l)"
proof
  assume "hasLiteralPrefix (c # r)"
  then obtain l t where lt: "c # r = l @ t" and lit: "StrDecimalLiteral l"
    by (auto simp: hasLiteralPrefix_def)
  from lit show "\<exists>l t. c # r = l @ t \<and> StrUnsignedDecimalLiteral l"
  proof cases
    case 1
    with lt show ?thesis by blast
  next
    case (2 u)
    with lt assms show ?thesis by simp
  next
    case (3 u)
    with lt assms show ?thesis by simp
  qed
next
  assume "\<exists>l t. c # r = l @ t \<and> StrUnsignedDecimalLiteral l"
  then show "hasLiteralPrefix (c # r)"
    unfolding hasLiteralPrefix_def by (blast intro: StrDecimalLiteral.intros(1))
qed

lemma hasLiteralPrefix_signed:
  assumes "c = cu CHR ''+'' \<or> c = cu CHR ''-''"
  shows "hasLiteralPrefix (c # r) = (\<exists>l t. r = l @ t \<and> StrUnsignedDecimalLiteral l)"
proof
  assume "hasLiteralPrefix (c # r)"
  then obtain l t where lt: "c # r = l @ t" and lit: "StrDecimalLiteral l"
    by (auto simp: hasLiteralPrefix_def)
  from lit show "\<exists>l t. r = l @ t \<and> StrUnsignedDecimalLiteral l"
  proof cases
    case 1
    from literal_not_signed [OF 1] lt have "hd l = c" "hd l \<noteq> cu CHR ''+''" "hd l \<noteq> cu CHR ''-''"
      by (cases l, simp_all)+
    with assms show ?thesis by simp
  next
    case (2 u)
    with lt have "r = u @ t" by simp
    with 2 show ?thesis by blast
  next
    case (3 u)
    with lt have "r = u @ t" by simp
    with 3 show ?thesis by blast
  qed
next
  assume "\<exists>l t. r = l @ t \<and> StrUnsignedDecimalLiteral l"
  then obtain l t where r: "r = l @ t" and u: "StrUnsignedDecimalLiteral l" by blast
  from assms u have "StrDecimalLiteral (c # l)"
    by (auto intro: StrDecimalLiteral.intros)
  moreover from r have "c # r = (c # l) @ t" by simp
  ultimately show "hasLiteralPrefix (c # r)"
    unfolding hasLiteralPrefix_def by blast
qed

lemma hasLiteralPrefix_Nil: "\<not> hasLiteralPrefix []"
proof
  assume "hasLiteralPrefix []"
  then have "StrDecimalLiteral []" by (simp add: hasLiteralPrefix_def)
  then show False
    by cases (use literal_not_signed(1) in auto)
qed

lemma js_negate_NaN: "(js_negate n = NaN) = (n = NaN)"
  by (cases n) simp_all

lemma parseFloat_str_NaN_iff:
  "(parseFloat_str s = NaN) = (\<not> hasLiteralPrefix (dropWhile isWhiteSpace s))"
proof (cases "dropWhile isWhiteSpace s")
  case Nil
  show ?thesis
    unfolding parseFloat_str_def Nil by (simp add: hasLiteralPrefix_Nil)
next
  case (Cons c r)
  show ?thesis
  proof (cases "c = cu CHR ''+'' \<or> c = cu CHR ''-''")
    case True
    then have "(parseFloat_str s = NaN) = (parseUnsigned r = NaN)"
      by (auto simp: parseFloat_str_def Cons js_negate_NaN)
    then show ?thesis
      unfolding Cons hasLiteralPrefix_signed [OF True] parseUnsigned_NaN_iff .
  next
    case False
    then have "(parseFloat_str s = NaN) = (parseUnsigned (c # r) = NaN)"
      by (simp add: parseFloat_str_def Cons)
    moreover from False have "c \<noteq> cu CHR ''+''" "c \<noteq> cu CHR ''-''" by simp_all
    ultimately show ?thesis
      unfolding Cons parseUnsigned_NaN_iff by (simp add: hasLiteralPrefix_unsigned)
  qed
qed

lemma parseFloat_blank: "list_all isWhiteSpace s \<Longrightarrow> parseFloat_str s = NaN"
proof -
  assume "list_all isWhiteSpace s"
  then have "dropWhile isWhiteSpace s = []" by (simp add: list_all_iff)
  then show ?thesis unfolding parseFloat_str_def by (simp only: list.case)
qed

lemma parseFloat_no_literal:
  assumes "\<not> isWhiteSpace c" and "c \<notin> set (utf16 ''+-.0123456789I'')"
  shows "parseFloat_str (c # r) = NaN"
proof -
  from assms(2) have d: "\<not> isDigit c" by (simp add: isDigit_def utf16_def)
  from assms(2) have i: "take 8 (c # r) \<noteq> utf16 ''Infinity''" by (auto simp: utf16_def)
  from assms(2) have s: "c \<noteq> cu CHR ''-''" "c \<noteq> cu CHR ''+''" "c \<noteq> cu CHR ''.''"
    by (simp_all add: utf16_def)
  from d have dw: "dropWhile isDigit (c # r) = c # r" by simp
  from d i s have "parseUnsigned (c # r) = NaN"
    unfolding parseUnsigned_NaN dw takeWhile_digit_Nil by simp
  with assms(1) s show ?thesis by (simp add: parseFloat_str_def)
qed

text \<open>Rounding at work: a decimal just above one half, a tie between two doubles, and a
  decimal below every positive double.\<close>

lemma parseFloat_rounds:
  "parseFloat_str (utf16 ''0.50000000000000000001'') = Fin 0.5"
  "parseFloat_str (utf16 ''9007199254740993'') = Fin 9007199254740992"
  "parseFloat_str (utf16 ''1e-400'') = Fin 0"
  by code_simp+

section \<open>Facts about the handler\<close>

lemma parseFloat_throws: "ToString_throws v \<Longrightarrow> parseFloat v = Inl TypeError"
proof (cases v)
  case (JArr xs)
  assume "ToString_throws v"
  with JArr show ?thesis by (cases xs) simp_all
qed simp_all

lemma parseFloat_returns: "\<not> ToString_throws v \<Longrightarrow> \<exists>n. parseFloat v = Inr n"
proof (induction v rule: parseFloat.induct)
  case (8 x xs)
  from "8.prems" have nx: "\<not> ToString_throws x" and nt: "\<not> ToString_throws (JArr (x # xs))"
    by simp_all
  show ?case
  proof (cases "x = JNull \<or> x = JUndefined")
    case True
    with nt show ?thesis by auto
  next
    case False
    with nt nx "8.IH" have "\<exists>n. parseFloat x = Inr n"
      by (cases x) simp_all
    with nt False show ?thesis
      by (cases x) (simp_all del: ToString_throws.simps)
  qed
qed simp_all

lemma parseFloat_Inl: "(parseFloat v = Inl TypeError) = ToString_throws v"
  using parseFloat_throws [of v] parseFloat_returns [of v]
  by (cases "ToString_throws v") auto

lemma js_map_Inl: "(js_map f xs = Inl TypeError) = (\<exists>x\<in>set xs. f x = Inl TypeError)"
proof (induction xs)
  case Nil
  show ?case by simp
next
  case (Cons x xs)
  show ?case
  proof (cases "f x")
    case (Inl e)
    then show ?thesis by (cases e) simp
  next
    case (Inr y)
    with Cons.IH show ?thesis by (auto split: sum.splits)
  qed
qed

lemma js_map_Inr:
  "js_map f xs = Inr ys \<Longrightarrow> length ys = length xs \<and> (\<forall>i<length xs. f (xs ! i) = Inr (ys ! i))"
proof (induction xs arbitrary: ys)
  case Nil
  then show ?case by simp
next
  case (Cons x xs)
  from Cons.prems obtain y ys' where y: "f x = Inr y" and r: "js_map f xs = Inr ys'"
    and ys: "ys = y # ys'"
    by (auto split: sum.splits)
  from Cons.IH [OF r] have len: "length ys' = length xs"
    and nth: "\<And>i. i < length xs \<Longrightarrow> f (xs ! i) = Inr (ys' ! i)"
    by simp_all
  have "f ((x # xs) ! i) = Inr (ys ! i)" if "i < length (x # xs)" for i
  proof (cases i)
    case 0
    with y ys show ?thesis by simp
  next
    case (Suc j)
    with that have "j < length xs" by simp
    with nth [of j] Suc ys show ?thesis by simp
  qed
  with len ys show ?case by simp
qed

lemma handler_array:
  assumes "length xs = 9"
  shows "predict_handler (JArr xs) rnd =
     (case js_map parseFloat xs of
        Inl e \<Rightarrow> PredictionFailed
      | Inr numericFeatures \<Rightarrow>
          if list_ex isNaN numericFeatures then NotNumericError
          else \<lparr>status = 200, json = Prediction (mockPredict numericFeatures rnd)\<rparr>)"
  using assms by (simp add: predict_handler_def)

lemma handler_shape:
  "\<not> truthy raw \<or> get_length raw \<noteq> JNum (Fin 9) \<Longrightarrow> predict_handler raw rnd = ShapeError"
  by (auto simp: predict_handler_def)

lemma handler_independent:
  assumes "predict_handler raw rnd = ShapeError \<or> predict_handler raw rnd = NotNumericError"
  shows "predict_handler raw rnd' = predict_handler raw rnd"
proof (cases "\<not> truthy raw \<or> get_length raw \<noteq> JNum (Fin 9)")
  case True
  then show ?thesis by (simp add: handler_shape)
next
  case False
  show ?thesis
  proof (cases raw)
    case (JArr xs)
    with False have len: "length xs = 9" by simp
    from assms show ?thesis
      unfolding JArr handler_array [OF len]
      by (simp add: ShapeError_def NotNumericError_def split: sum.splits if_splits)
  qed (use False in \<open>simp_all add: predict_handler_def\<close>)
qed

lemma handler_success:
  assumes "predict_handler raw rnd = \<lparr>status = 200, json = Prediction p\<rparr>"
  obtains xs nums where "raw = JArr xs" and "length xs = 9"
    and "js_map parseFloat xs = Inr nums"
    and "\<not> list_ex isNaN nums" and "p = mockPredict nums rnd"
proof (cases raw)
  case (JArr xs)
  with assms have len: "length xs = 9"
    by (simp add: predict_handler_def ShapeError_def split: if_splits)
  from assms obtain nums where "js_map parseFloat xs = Inr nums"
    "\<not> list_ex isNaN nums" "p = mockPredict nums rnd"
    unfolding JArr handler_array [OF len]
    by (auto simp: NotNumericError_def PredictionFailed_def split: sum.splits if_splits)
  with JArr len show thesis by (intro that)
qed (use assms in \<open>simp_all add: predict_handler_def ShapeError_def PredictionFailed_def
        split: if_splits\<close>)

lemma handler_error_body:
  assumes "predict_handler raw rnd = ShapeError \<or> predict_handler raw rnd = NotNumericError"
  shows "status (predict_handler raw rnd) = 400"
    and "json (predict_handler raw rnd) \<noteq> Prediction p"
  using assms unfolding ShapeError_def NotNumericError_def by auto

lemma handler_prediction:
  assumes j: "json (predict_handler raw rnd) = Prediction p"
  shows "predict_handler raw rnd = \<lparr>status = 200, json = Prediction p\<rparr>"
proof (cases "\<not> truthy raw \<or> get_length raw \<noteq> JNum (Fin 9)")
  case True
  then have "predict_handler raw rnd = ShapeError" by (rule handler_shape)
  with j show ?thesis by (simp add: ShapeError_def)
next
  case False
  show ?thesis
  proof (cases raw)
    case (JArr fs)
    with False have len: "length fs = 9" by simp
    show ?thesis
    proof (cases "js_map parseFloat fs")
      case (Inl e)
      with j show ?thesis
        unfolding JArr handler_array [OF len] by (simp add: PredictionFailed_def)
    next
      case (Inr nums)
      with j show ?thesis
        unfolding JArr handler_array [OF len]
        by (cases "list_ex isNaN nums") (simp_all add: NotNumericError_def)
    qed
  qed (use False j in \<open>simp_all add: predict_handler_def PredictionFailed_def\<close>)
qed

lemma some_throws:
  assumes "length xs = 9"
  shows "(js_map parseFloat xs = Inl TypeError) = (\<exists>i<9. ToString_throws (xs ! i))"
proof -
  have "(\<exists>x\<in>set xs. ToString_throws x) = (\<exists>i<9. ToString_throws (xs ! i))"
  proof
    assume "\<exists>x\<in>set xs. ToString_throws x"
    then obtain i where "i < length xs" "ToString_throws (xs ! i)"
      by (auto simp: in_set_conv_nth)
    with assms show "\<exists>i<9. ToString_throws (xs ! i)" by auto
  next
    assume "\<exists>i<9. ToString_throws (xs ! i)"
    then obtain i where "i < 9" "ToString_throws (xs ! i)" by blast
    with assms have "xs ! i \<in> set xs" "ToString_throws (xs ! i)" by simp_all
    then show "\<exists>x\<in>set xs. ToString_throws x" by blast
  qed
  then show ?thesis by (simp add: js_map_Inl parseFloat_Inl)
qed

lemma none_throws:
  assumes "length xs = 9" and "\<not> (\<exists>i<9. ToString_throws (xs ! i))"
  obtains nums where "js_map parseFloat xs = Inr nums" and "length nums = 9"
    and "\<And>i. i < 9 \<Longrightarrow> parseFloat (xs ! i) = Inr (nums ! i)"
proof -
  from assms have "js_map parseFloat xs \<noteq> Inl TypeError" by (simp add: some_throws)
  then obtain nums where n: "js_map parseFloat xs = Inr nums"
    by (cases "js_map parseFloat xs") (auto intro: exn.exhaust)
  from js_map_Inr [OF n] assms(1) have "length nums = 9"
    "\<And>i. i < 9 \<Longrightarrow> parseFloat (xs ! i) = Inr (nums ! i)"
    by simp_all
  with n show thesis by (rule that)
qed

lemma some_NaN:
  assumes "length nums = 9" and "\<And>i. i < 9 \<Longrightarrow> parseFloat (xs ! i) = Inr (nums ! i)"
  shows "list_ex isNaN nums = (\<exists>i<9. parseFloat (xs ! i) = Inr NaN)"
proof
  assume "list_ex isNaN nums"
  then obtain i where "i < length nums" "nums ! i = NaN"
    by (auto simp: list_ex_iff isNaN_def in_set_conv_nth)
  with assms have "i < 9 \<and> parseFloat (xs ! i) = Inr NaN" by simp
  then show "\<exists>i<9. parseFloat (xs ! i) = Inr NaN" by blast
next
  assume "\<exists>i<9. parseFloat (xs ! i) = Inr NaN"
  then obtain i where i: "i < 9" and n: "parseFloat (xs ! i) = Inr NaN" by blast
  from assms(2) [OF i] n have "nums ! i = NaN" by simp
  moreover from i assms(1) have "nums ! i \<in> set nums" by simp
  ultimately have "NaN \<in> set nums" by simp
  then show "list_ex isNaN nums"
    unfolding list_ex_iff isNaN_def by blast
qed

section \<open>The scorer\<close>

text \<open>
  Claim C1. On a vector of nine finite numbers the probabilities that \<open>mockPredict\<close>
  returns are the weights of the specification: 0.33, 0.33 and 0.34, plus 0.20 on
  Confirmed when \<open>0.5 < koi_prad < 4\<close> and \<open>200 < koi_teq < 400\<close>, plus 0.30 on
  False Positive when \<open>koi_prad > 10\<close>, plus 0.20 on False Positive when
  \<open>koi_period < 1\<close>, each bonus added on its own, and each weight divided by the sum of
  the three.
\<close>

theorem scorer_computes_spec_weights:
  assumes "length v = 9"
  shows "probabilities (mockPredict (map Fin v) rnd) = spec_distribution v"
proof -
  from assms have d: "destructure (map Fin v) 0 = Fin (v ! 0)"
    "destructure (map Fin v) 1 = Fin (v ! 1)" "destructure (map Fin v) 4 = Fin (v ! 4)"
    by (simp_all add: destructure_Fin)
  have code: "probabilities (mockPredict (map Fin v) rnd) =
      (let c = (if 0.5 < v ! 1 \<and> v ! 1 < 4 \<and> 200 < v ! 4 \<and> v ! 4 < 400
                then 0.33 + 0.2 else 0.33);
           f = (if 10 < v ! 1 then 0.34 + 0.3 else 0.34);
           f = (if v ! 0 < 1 then f + 0.2 else f);
           total = c + 0.33 + f
       in [(''Confirmed'', c / total), (''Candidate'', 0.33 / total),
           (''False Positive'', f / total)])"
    unfolding mockPredict_def d js_greater_def Let_def js_less.simps
    by (simp only: prediction.simps)
  show ?thesis
    unfolding code spec_distribution_def spec_weights_def Let_def prod.case
    by (cases "0.5 < v ! 1 \<and> v ! 1 < 4 \<and> 200 < v ! 4 \<and> v ! 4 < 400";
        cases "10 < v ! 1"; cases "v ! 0 < 1") simp_all
qed

text \<open>
  Two inputs on which two rules fire together: a radius of 15 with a period of half a day
  (both bonuses of False Positive), and a radius of 2 at 300 K with a period of half a day
  (the bonus of Confirmed and one of False Positive).
\<close>

theorem scorer_computes_spec_weights_witness:
  "length [0.5, 15, 0.1, 85, 300, 4.5, 1, 1, 5500 :: real] = 9
   \<and> spec_weights [0.5, 15, 0.1, 85, 300, 4.5, 1, 1, 5500] = (0.33, 0.33, 0.84)
   \<and> probabilities (mockPredict (map Fin [0.5, 15, 0.1, 85, 300, 4.5, 1, 1, 5500]) zero_draws) =
       [(''Confirmed'', 0.33 / 1.5), (''Candidate'', 0.33 / 1.5), (''False Positive'', 0.84 / 1.5)]
   \<and> spec_weights [0.5, 2, 0.1, 85, 300, 4.5, 1, 1, 5500] = (0.53, 0.33, 0.54)
   \<and> probabilities (mockPredict (map Fin [0.5, 2, 0.1, 85, 300, 4.5, 1, 1, 5500]) zero_draws) =
       [(''Confirmed'', 0.53 / 1.4), (''Candidate'', 0.33 / 1.4), (''False Positive'', 0.54 / 1.4)]"
proof -
  have h: "length [0.5, 15, 0.1, 85, 300, 4.5, 1, 1, 5500 :: real] = 9" by simp
  have w: "spec_weights [0.5, 15, 0.1, 85, 300, 4.5, 1, 1, 5500] = (0.33, 0.33, 0.84)"
    by (simp add: spec_weights_def)
  from scorer_computes_spec_weights [OF h, of zero_draws] w
  have a: "probabilities
      (mockPredict (map Fin [0.5, 15, 0.1, 85, 300, 4.5, 1, 1, 5500]) zero_draws) =
       [(''Confirmed'', 0.33 / 1.5), (''Candidate'', 0.33 / 1.5), (''False Positive'', 0.84 / 1.5)]"
    by (simp add: spec_distribution_def)
  have h': "length [0.5, 2, 0.1, 85, 300, 4.5, 1, 1, 5500 :: real] = 9" by simp
  have w': "spec_weights [0.5, 2, 0.1, 85, 300, 4.5, 1, 1, 5500] = (0.53, 0.33, 0.54)"
    by (simp add: spec_weights_def)
  from scorer_computes_spec_weights [OF h', of zero_draws] w'
  have b: "probabilities
      (mockPredict (map Fin [0.5, 2, 0.1, 85, 300, 4.5, 1, 1, 5500]) zero_draws) =
       [(''Confirmed'', 0.53 / 1.4), (''Candidate'', 0.33 / 1.4), (''False Positive'', 0.54 / 1.4)]"
    by (simp add: spec_distribution_def)
  from h w a w' b show ?thesis by (intro conjI)
qed

text \<open>
  Claim C2. The predicted class is a class whose probability in the returned
  distribution is the greatest, and no class before it in the order Confirmed, Candidate,
  False Positive has that probability: among tied classes it is the first.
\<close>

theorem predicted_class_is_first_maximum:
  "\<exists>i m. i < 3 \<and> predicted_class (mockPredict fs rnd) = Some (class_order ! i)
      \<and> map_of (probabilities (mockPredict fs rnd)) (class_order ! i) = Some m
      \<and> (\<forall>j<3. \<exists>q. map_of (probabilities (mockPredict fs rnd)) (class_order ! j) = Some q
             \<and> q \<le> m \<and> (j < i \<longrightarrow> q < m))"
proof -
  from mockPredict_shape [of fs rnd] obtain c f where
    p: "probabilities (mockPredict fs rnd) =
       [(''Confirmed'', c / (c + 0.33 + f)), (''Candidate'', 0.33 / (c + 0.33 + f)),
        (''False Positive'', f / (c + 0.33 + f))]" and
    l: "predicted_class (mockPredict fs rnd) =
       js_at [''Confirmed'', ''Candidate'', ''False Positive'']
         (indexOf [c / (c + 0.33 + f), 0.33 / (c + 0.33 + f), f / (c + 0.33 + f)]
            (Math_max [c / (c + 0.33 + f), 0.33 / (c + 0.33 + f), f / (c + 0.33 + f)]))"
    by blast
  define xs where "xs = [c / (c + 0.33 + f), 0.33 / (c + 0.33 + f), f / (c + 0.33 + f)]"
  define i where "i = nat (indexOf xs (Math_max xs))"
  have ne: "xs \<noteq> []" by (simp add: xs_def)
  have len: "length xs = 3" by (simp add: xs_def)
  note a = argmax_first [OF ne, folded i_def]
  from a(2) len have i3: "i < 3" by simp
  have look: "map_of (probabilities (mockPredict fs rnd)) (class_order ! j) = Some (xs ! j)"
    if "j < 3" for j
  proof -
    from that have "j = 0 \<or> j = 1 \<or> j = 2" by arith
    then show ?thesis
      unfolding p by (auto simp: class_order_def xs_def)
  qed
  have cls: "predicted_class (mockPredict fs rnd) = Some (class_order ! i)"
    unfolding l xs_def [symmetric] a(1) using i3 by (simp add: js_at_def class_order_def)
  have "\<exists>q. map_of (probabilities (mockPredict fs rnd)) (class_order ! j) = Some q
             \<and> q \<le> xs ! i \<and> (j < i \<longrightarrow> q < xs ! i)" if "j < 3" for j
    using look [OF that] a(3) [of j] a(4) [of j] that len by simp
  with i3 cls look [OF i3] show ?thesis by blast
qed

theorem predicted_class_is_first_maximum_witness:
  "predicted_class (mockPredict (example_numbers) zero_draws) = Some ''Confirmed''
   \<and> probabilities (mockPredict (example_numbers) zero_draws) =
       [(''Confirmed'', 53 / 120), (''Candidate'', 11 / 40), (''False Positive'', 17 / 60)]
   \<and> (\<exists>i m. i < 3
         \<and> predicted_class (mockPredict (example_numbers) zero_draws) =
             Some (class_order ! i)
         \<and> map_of (probabilities (mockPredict (example_numbers) zero_draws))
               (class_order ! i) = Some m
         \<and> (\<forall>j<3. \<exists>q.
               map_of (probabilities (mockPredict (example_numbers) zero_draws))
                 (class_order ! j) = Some q
               \<and> q \<le> m \<and> (j < i \<longrightarrow> q < m)))"
proof -
  have a: "predicted_class (mockPredict (example_numbers) zero_draws) =
      Some ''Confirmed''"
    by code_simp
  have b: "probabilities (mockPredict (example_numbers) zero_draws) =
       [(''Confirmed'', 53 / 120), (''Candidate'', 11 / 40), (''False Positive'', 17 / 60)]"
    by code_simp
  from a b predicted_class_is_first_maximum [of "example_numbers" zero_draws]
  show ?thesis by (intro conjI)
qed

text \<open>
  Claim C3. The returned distribution has the three classes as its keys, each probability
  lies between 0 and 1, and the three sum to exactly 1.
\<close>

theorem probabilities_in_unit_interval_sum_one:
  "map fst (probabilities (mockPredict fs rnd)) = [''Confirmed'', ''Candidate'', ''False Positive'']
   \<and> sum_list (map snd (probabilities (mockPredict fs rnd))) = 1
   \<and> list_all (\<lambda>p. 0 \<le> p \<and> p \<le> 1) (map snd (probabilities (mockPredict fs rnd)))"
proof -
  from mockPredict_shape [of fs rnd] obtain c f where
    c: "0.33 \<le> c" and f: "0.34 \<le> f" and
    p: "probabilities (mockPredict fs rnd) =
       [(''Confirmed'', c / (c + 0.33 + f)), (''Candidate'', 0.33 / (c + 0.33 + f)),
        (''False Positive'', f / (c + 0.33 + f))]"
    by blast
  define t where "t = c + 0.33 + f"
  from c f have t: "0 < t" "c \<le> t" "0.33 \<le> t" "f \<le> t" "0 \<le> c" "0 \<le> f" by (simp_all add: t_def)
  have "c / t + 0.33 / t + f / t = (c + 0.33 + f) / t"
    by (simp add: add_divide_distrib)
  also have "\<dots> = 1" using t by (simp add: t_def)
  finally have s: "c / t + 0.33 / t + f / t = 1" .
  from t have b: "0 \<le> c / t" "c / t \<le> 1" "0 \<le> 0.33 / t" "0.33 / t \<le> 1" "0 \<le> f / t" "f / t \<le> 1"
    by simp_all
  show ?thesis
    unfolding p t_def [symmetric] using s b by simp
qed

theorem probabilities_in_unit_interval_sum_one_witness:
  "map snd (probabilities (mockPredict [Fin 0.5, Fin 15, Fin 0.1, Fin 85, Fin 300] zero_draws)) =
     [11 / 50, 11 / 50, 14 / 25]
   \<and> sum_list (map snd
         (probabilities (mockPredict [Fin 0.5, Fin 15, Fin 0.1, Fin 85, Fin 300] zero_draws))) = 1"
proof -
  have a: "map snd
      (probabilities (mockPredict [Fin 0.5, Fin 15, Fin 0.1, Fin 85, Fin 300] zero_draws)) =
     [11 / 50, 11 / 50, 14 / 25]"
    by code_simp
  from probabilities_in_unit_interval_sum_one
    [of "[Fin 0.5, Fin 15, Fin 0.1, Fin 85, Fin 300]" zero_draws]
  have "sum_list (map snd
         (probabilities (mockPredict [Fin 0.5, Fin 15, Fin 0.1, Fin 85, Fin 300] zero_draws))) = 1"
    by (elim conjE)
  with a show ?thesis by (intro conjI)
qed

text \<open>
  Claim C8. The predicted class and the probabilities do not depend on the random source:
  two calls on the same features return the same class and the same distribution whatever
  \<open>Math.random()\<close> returns in each.
\<close>

theorem scorer_ignores_random_source:
  "predicted_class (mockPredict fs rnd) = predicted_class (mockPredict fs rnd')
   \<and> probabilities (mockPredict fs rnd) = probabilities (mockPredict fs rnd')"
  by (simp add: mockPredict_def Let_def)

theorem scorer_ignores_random_source_witness:
  "predicted_class (mockPredict (example_numbers) zero_draws) =
     predicted_class (mockPredict (example_numbers) tenth_draws)
   \<and> probabilities (mockPredict (example_numbers) zero_draws) =
     probabilities (mockPredict (example_numbers) tenth_draws)
   \<and> map importance (top_features (mockPredict (example_numbers) zero_draws)) =
       [- 1, - 1, - 1]
   \<and> map importance (top_features (mockPredict (example_numbers) tenth_draws)) =
       [- 1, - (8 / 10), - (6 / 10)]"
proof -
  have a: "map importance
      (top_features (mockPredict (example_numbers) zero_draws)) = [- 1, - 1, - 1]"
    by code_simp
  have b: "map importance
      (top_features (mockPredict (example_numbers) tenth_draws)) =
       [- 1, - (8 / 10), - (6 / 10)]"
    by code_simp
  from scorer_ignores_random_source [of "example_numbers" zero_draws tenth_draws]
    a b
  show ?thesis by (intro conjI) (elim conjE, assumption)+
qed

text \<open>
  Claim C10. The predicted class is never Candidate: in the returned distribution the
  probability of Candidate is strictly below that of False Positive.
\<close>

theorem never_predicts_candidate:
  "predicted_class (mockPredict fs rnd) \<noteq> Some ''Candidate''
   \<and> (\<exists>d f. map_of (probabilities (mockPredict fs rnd)) ''Candidate'' = Some d
            \<and> map_of (probabilities (mockPredict fs rnd)) ''False Positive'' = Some f
            \<and> d < f)"
proof -
  from mockPredict_shape [of fs rnd] obtain c f where
    c: "0.33 \<le> c" and f: "0.34 \<le> f" and
    p: "probabilities (mockPredict fs rnd) =
       [(''Confirmed'', c / (c + 0.33 + f)), (''Candidate'', 0.33 / (c + 0.33 + f)),
        (''False Positive'', f / (c + 0.33 + f))]" and
    l: "predicted_class (mockPredict fs rnd) =
       js_at [''Confirmed'', ''Candidate'', ''False Positive'']
         (indexOf [c / (c + 0.33 + f), 0.33 / (c + 0.33 + f), f / (c + 0.33 + f)]
            (Math_max [c / (c + 0.33 + f), 0.33 / (c + 0.33 + f), f / (c + 0.33 + f)]))"
    by blast
  define t where "t = c + 0.33 + f"
  define xs where "xs = [c / t, 0.33 / t, f / t]"
  define i where "i = nat (indexOf xs (Math_max xs))"
  from c f have t: "0 < t" by (simp add: t_def)
  from f have "(0.33::real) < f" by simp
  then have lt: "0.33 / t < f / t" using t by (rule divide_strict_right_mono)
  have ne: "xs \<noteq> []" by (simp add: xs_def)
  note a = argmax_first [OF ne, folded i_def]
  have "xs ! 2 \<le> xs ! i" by (rule a(3)) (simp add: xs_def)
  with lt have "i \<noteq> 1" by (auto simp: xs_def)
  moreover from a(2) have "i < 3" by (simp add: xs_def)
  ultimately have "i = 0 \<or> i = 2" by arith
  then have "predicted_class (mockPredict fs rnd) \<noteq> Some ''Candidate''"
    unfolding l t_def [symmetric] xs_def [symmetric] a(1) by (auto simp: js_at_def)
  moreover have "map_of (probabilities (mockPredict fs rnd)) ''Candidate'' = Some (0.33 / t)"
    "map_of (probabilities (mockPredict fs rnd)) ''False Positive'' = Some (f / t)"
    unfolding p t_def by simp_all
  ultimately show ?thesis using lt by blast
qed

theorem never_predicts_candidate_witness:
  "predicted_class (mockPredict (example_numbers) zero_draws) = Some ''Confirmed''
   \<and> predicted_class (mockPredict (example_numbers) zero_draws) \<noteq>
       Some ''Candidate''
   \<and> map_of (probabilities (mockPredict (example_numbers) zero_draws))
       ''Candidate'' = Some (11 / 40)
   \<and> map_of (probabilities (mockPredict (example_numbers) zero_draws))
       ''False Positive'' = Some (17 / 60)"
proof -
  have a: "predicted_class (mockPredict (example_numbers) zero_draws) =
      Some ''Confirmed''"
    by code_simp
  have b: "map_of (probabilities (mockPredict (example_numbers) zero_draws))
       ''Candidate'' = Some (11 / 40)"
    by code_simp
  have c: "map_of (probabilities (mockPredict (example_numbers) zero_draws))
       ''False Positive'' = Some (17 / 60)"
    by code_simp
  from never_predicts_candidate [of "example_numbers" zero_draws]
  have "predicted_class (mockPredict (example_numbers) zero_draws) \<noteq>
       Some ''Candidate''"
    by (elim conjE)
  with a b c show ?thesis by (intro conjI)
qed

section \<open>The feature-importance list\<close>

text \<open>
  Claim C6. For nine features, \<open>top_features\<close> holds min(3, 9) = 3 entries (the program
  fixes the number of entries at 3), in order of non-increasing absolute importance;
  entries of equal absolute importance stand in the order of their features.
\<close>

theorem top_features_ranked:
  assumes "length fs = 9"
  shows "top_features (mockPredict fs rnd) =
      slice0 3 (js_sort byAbsImportance (shapValues fs rnd))
    \<and> length (slice0 k (js_sort byAbsImportance (shapValues fs rnd))) = min k 9
    \<and> length (top_features (mockPredict fs rnd)) = min 3 9
    \<and> (\<forall>i j. i < j \<and> j < length (top_features (mockPredict fs rnd)) \<longrightarrow>
          \<bar>importance (top_features (mockPredict fs rnd) ! j)\<bar>
            \<le> \<bar>importance (top_features (mockPredict fs rnd) ! i)\<bar>
          \<and> (\<bar>importance (top_features (mockPredict fs rnd) ! j)\<bar>
               = \<bar>importance (top_features (mockPredict fs rnd) ! i)\<bar> \<longrightarrow>
             feature_pos (feature (top_features (mockPredict fs rnd) ! i))
               < feature_pos (feature (top_features (mockPredict fs rnd) ! j))))"
proof -
  define tf where "tf = top_features (mockPredict fs rnd)"
  have tf: "tf = take 3 (js_sort byAbsImportance (shapValues fs rnd))"
    by (simp add: tf_def top_features_mockPredict)
  from assms have len: "length tf = min 3 9"
    by (simp add: tf length_js_sort length_shapValues)
  from assms have "sorted_wrt ranks_before (js_sort byAbsImportance (shapValues fs rnd))"
    by (intro ranks_before_js_sort shapValues_in_order) simp
  then have "sorted_wrt ranks_before tf"
    unfolding tf by (rule sorted_wrt_take)
  then have rb: "ranks_before (tf ! i) (tf ! j)" if "i < j" "j < length tf" for i j
    using that by (simp add: sorted_wrt_iff_nth_less)
  have "\<bar>importance (tf ! j)\<bar> \<le> \<bar>importance (tf ! i)\<bar>
          \<and> (\<bar>importance (tf ! j)\<bar> = \<bar>importance (tf ! i)\<bar> \<longrightarrow>
             feature_pos (feature (tf ! i)) < feature_pos (feature (tf ! j)))"
    if "i < j \<and> j < length tf" for i j
    using that rb [of i j] by (auto simp: ranks_before_def)
  then have ranked: "\<forall>i j. i < j \<and> j < length tf \<longrightarrow>
          \<bar>importance (tf ! j)\<bar> \<le> \<bar>importance (tf ! i)\<bar>
          \<and> (\<bar>importance (tf ! j)\<bar> = \<bar>importance (tf ! i)\<bar> \<longrightarrow>
             feature_pos (feature (tf ! i)) < feature_pos (feature (tf ! j)))"
    by blast
  have sl: "top_features (mockPredict fs rnd) =
      slice0 3 (js_sort byAbsImportance (shapValues fs rnd))"
    by (simp add: top_features_mockPredict slice0_def)
  from assms have lk: "length (slice0 k (js_sort byAbsImportance (shapValues fs rnd))) = min k 9"
    by (simp add: slice0_def length_js_sort length_shapValues min.commute)
  from sl lk len ranked show ?thesis unfolding tf_def by (intro conjI)
qed

theorem top_features_ranked_witness:
  "length (example_numbers) = 9
   \<and> length (top_features (mockPredict (example_numbers) tenth_draws)) = 3
   \<and> length (slice0 12
        (js_sort byAbsImportance (shapValues (example_numbers) tenth_draws))) = 9
   \<and> map importance (shapValues (example_numbers) tenth_draws) =
       [- 1, - (8 / 10), - (6 / 10), - (4 / 10), - (2 / 10), 0, 2 / 10, 4 / 10, 6 / 10]
   \<and> map importance (top_features (mockPredict (example_numbers) tenth_draws)) =
       [- 1, - (8 / 10), - (6 / 10)]
   \<and> map feature (top_features (mockPredict (example_numbers) tenth_draws)) =
       [Some ''koi_period'', Some ''koi_prad'', Some ''koi_sma'']"
proof -
  have len: "length (example_numbers) = 9"
    by (simp add: example_numbers_def)
  note t = top_features_ranked [OF len, where rnd = tenth_draws and k = 12]
  from t
  have "length (top_features (mockPredict (example_numbers) tenth_draws)) = min 3 9"
    by (elim conjE)
  then have a: "length (top_features (mockPredict (example_numbers) tenth_draws)) = 3"
    by simp
  from t have "length (slice0 12
      (js_sort byAbsImportance (shapValues (example_numbers) tenth_draws))) =
      min 12 9"
    by (elim conjE)
  then have e: "length (slice0 12
      (js_sort byAbsImportance (shapValues (example_numbers) tenth_draws))) = 9"
    by simp
  have b: "map importance (shapValues (example_numbers) tenth_draws) =
       [- 1, - (8 / 10), - (6 / 10), - (4 / 10), - (2 / 10), 0, 2 / 10, 4 / 10, 6 / 10]"
    by code_simp
  have c: "map importance
      (top_features (mockPredict (example_numbers) tenth_draws)) =
       [- 1, - (8 / 10), - (6 / 10)]"
    by code_simp
  have d: "map feature (top_features (mockPredict (example_numbers) tenth_draws)) =
       [Some ''koi_period'', Some ''koi_prad'', Some ''koi_sma'']"
    by code_simp
  from len a e b c d show ?thesis by (intro conjI)
qed

text \<open>
  Claim C7, as amended. When every draw of the random source lies in the half-open interval
  from 0 to 1, as the results of \<open>Math.random()\<close> do, every generated importance lies
  in the half-open interval from -1 to 1: at least -1 and strictly below 1.
\<close>

theorem importance_in_half_open_interval:
  assumes "\<forall>k<length fs. 0 \<le> rnd k \<and> rnd k < 1"
  shows "length (shapValues fs rnd) = length fs
    \<and> (\<forall>c\<in>set (shapValues fs rnd). - 1 \<le> importance c \<and> importance c < 1)
    \<and> (\<forall>c\<in>set (top_features (mockPredict fs rnd)). - 1 \<le> importance c \<and> importance c < 1)"
proof -
  have all: "- 1 \<le> importance c \<and> importance c < 1" if "c \<in> set (shapValues fs rnd)" for c
  proof -
    from that obtain i where i: "i < length fs"
      and c: "c = \<lparr>feature = js_at featureNames (int i), importance = (rnd i - 0.5) * 2,
                  val = fs ! i\<rparr>"
      by (rule in_shapValues)
    from assms i have "0 \<le> rnd i" "rnd i < 1" by simp_all
    then have "- 1 \<le> (rnd i - 0.5) * 2 \<and> (rnd i - 0.5) * 2 < 1" by (rule importance_bounds)
    then show ?thesis by (simp add: c)
  qed
  moreover have "- 1 \<le> importance c \<and> importance c < 1"
    if "c \<in> set (top_features (mockPredict fs rnd))" for c
    using that top_features_subset [of fs rnd] all by blast
  ultimately show ?thesis by (simp add: length_shapValues)
qed

theorem importance_in_half_open_interval_witness:
  "tenth_draws 0 = 0
   \<and> length (shapValues (example_numbers) tenth_draws) = 9
   \<and> importance (shapValues (example_numbers) tenth_draws ! 0) = - 1
   \<and> - 1 \<le> importance (shapValues (example_numbers) tenth_draws ! 8)
   \<and> importance (shapValues (example_numbers) tenth_draws ! 8) < 1"
proof -
  have r: "\<forall>k<length (example_numbers). 0 \<le> tenth_draws k \<and> tenth_draws k < 1"
    by (simp add: tenth_draws_def)
  have len: "length (example_numbers) = 9"
    by (simp add: example_numbers_def)
  note t = importance_in_half_open_interval [OF r]
  from t len have l: "length (shapValues (example_numbers) tenth_draws) = 9"
    by simp
  then have "shapValues (example_numbers) tenth_draws ! 8
      \<in> set (shapValues (example_numbers) tenth_draws)"
    by simp
  with t have b: "- 1 \<le> importance (shapValues (example_numbers) tenth_draws ! 8)
      \<and> importance (shapValues (example_numbers) tenth_draws ! 8) < 1"
    by blast
  have z: "tenth_draws 0 = 0" by (simp add: tenth_draws_def)
  have m: "importance (shapValues (example_numbers) tenth_draws ! 0) = - 1"
    by code_simp
  from z l m b show ?thesis by (intro conjI) (elim conjE, assumption)+
qed

text \<open>
  The claim as stated puts every importance strictly above -1. A draw of 0 gives an
  importance of exactly -1.
\<close>

theorem importance_open_interval_counterexample:
  "0 \<le> zero_draws 0 \<and> zero_draws 0 < 1
   \<and> length (shapValues (example_numbers) zero_draws) = 9
   \<and> importance (shapValues (example_numbers) zero_draws ! 0) = - 1
   \<and> \<not> (- 1 < importance (shapValues (example_numbers) zero_draws ! 0))
   \<and> map importance
       (top_features (mockPredict (example_numbers) zero_draws)) = [- 1, - 1, - 1]"
proof -
  have a: "importance (shapValues (example_numbers) zero_draws ! 0) = - 1"
    by code_simp
  have b: "map importance
       (top_features (mockPredict (example_numbers) zero_draws)) = [- 1, - 1, - 1]"
    by code_simp
  have c: "length (shapValues (example_numbers) zero_draws) = 9"
    by (simp add: length_shapValues example_numbers_def)
  from a b c show ?thesis by (simp add: zero_draws_def)
qed

text \<open>
  Claim C9. When the endpoint answers with a prediction, every entry of \<open>top_features\<close>
  carries the name of one of the nine positions and, as its value, the number that
  \<open>parseFloat\<close> read from the input at that position.
\<close>

theorem top_features_carry_name_and_value:
  assumes "predict_handler raw rnd = \<lparr>status = 200, json = Prediction p\<rparr>"
  shows "\<exists>xs. raw = JArr xs \<and> length xs = 9
    \<and> (\<forall>c\<in>set (top_features p). \<exists>i<9.
          feature c = Some (featureNames ! i) \<and> parseFloat (xs ! i) = Inr (val c))"
proof -
  from assms obtain xs nums where raw: "raw = JArr xs" and len: "length xs = 9"
    and nums: "js_map parseFloat xs = Inr nums"
    and p: "p = mockPredict nums rnd"
    by (rule handler_success)
  from js_map_Inr [OF nums] len have ln: "length nums = 9"
    and nth: "\<And>i. i < 9 \<Longrightarrow> parseFloat (xs ! i) = Inr (nums ! i)"
    by simp_all
  have "\<exists>i<9. feature c = Some (featureNames ! i) \<and> parseFloat (xs ! i) = Inr (val c)"
    if "c \<in> set (top_features p)" for c
  proof -
    from that have "c \<in> set (shapValues nums rnd)"
      using top_features_subset [of nums rnd] by (auto simp: p)
    then obtain i where i: "i < length nums"
      and c: "c = \<lparr>feature = js_at featureNames (int i), importance = (rnd i - 0.5) * 2,
                  val = nums ! i\<rparr>"
      by (rule in_shapValues)
    from i ln have i9: "i < 9" by simp
    then have "feature c = Some (featureNames ! i)"
      by (simp add: c js_at_def featureNames_def)
    moreover from nth [OF i9] have "parseFloat (xs ! i) = Inr (val c)" by (simp add: c)
    ultimately show ?thesis using i9 by blast
  qed
  with raw len show ?thesis by blast
qed

theorem top_features_carry_name_and_value_witness:
  "predict_handler (JArr example_features) tenth_draws =
     \<lparr>status = 200, json = Prediction (mockPredict example_numbers tenth_draws)\<rparr>
   \<and> map feature (top_features (mockPredict example_numbers tenth_draws)) =
       [Some ''koi_period'', Some ''koi_prad'', Some ''koi_sma'']
   \<and> map val (top_features (mockPredict example_numbers tenth_draws)) =
       [Fin 10, Fin 2, Fin (1 / 10)]
   \<and> (\<exists>xs. JArr example_features = JArr xs \<and> length xs = 9
        \<and> (\<forall>c\<in>set (top_features (mockPredict example_numbers tenth_draws)).
              \<exists>i<9. feature c = Some (featureNames ! i) \<and> parseFloat (xs ! i) = Inr (val c)))"
proof -
  have len: "length example_features = 9" by (simp add: example_features_def)
  have m: "js_map parseFloat example_features = Inr example_numbers" by code_simp
  have no: "\<not> list_ex isNaN example_numbers" by code_simp
  have h: "predict_handler (JArr example_features) tenth_draws =
     \<lparr>status = 200, json = Prediction (mockPredict example_numbers tenth_draws)\<rparr>"
    unfolding handler_array [OF len] m using no by simp
  have f: "map feature (top_features (mockPredict example_numbers tenth_draws)) =
       [Some ''koi_period'', Some ''koi_prad'', Some ''koi_sma'']"
    by code_simp
  have v: "map val (top_features (mockPredict example_numbers tenth_draws)) =
       [Fin 10, Fin 2, Fin (1 / 10)]"
    by code_simp
  from h f v top_features_carry_name_and_value [OF h] show ?thesis by (intro conjI)
qed

section \<open>Validation\<close>

text \<open>
  Claim C4, as amended. For a nine-element input: the endpoint answers with the
  not-numeric error exactly when the conversion of no element throws and \<open>parseFloat\<close> of
  some element is NaN; it answers 500 exactly when the conversion of some element throws;
  otherwise it returns the prediction. \<open>parseFloat\<close> of a string is NaN exactly when the
  string, after its leading white space, has no prefix that is a decimal literal. So blank
  strings are rejected, and so is every string whose first character is neither white
  space nor one that can start a literal (a sign, a point, a digit or \<open>I\<close>), such as the
  token \<open>abc\<close>.
\<close>

theorem validation_rejects_exactly_unparsable:
  assumes "length xs = 9"
  shows "(predict_handler (JArr xs) rnd = PredictionFailed) = (\<exists>i<9. ToString_throws (xs ! i))
    \<and> (predict_handler (JArr xs) rnd = NotNumericError) =
        ((\<forall>i<9. \<not> ToString_throws (xs ! i)) \<and> (\<exists>i<9. parseFloat (xs ! i) = Inr NaN))
    \<and> (predict_handler (JArr xs) rnd \<noteq> PredictionFailed
        \<and> predict_handler (JArr xs) rnd \<noteq> NotNumericError \<longrightarrow>
          (\<exists>nums. js_map parseFloat xs = Inr nums
             \<and> predict_handler (JArr xs) rnd =
                 \<lparr>status = 200, json = Prediction (mockPredict nums rnd)\<rparr>))
    \<and> (parseFloat (JStr s) = Inr NaN) = (\<not> hasLiteralPrefix (dropWhile isWhiteSpace s))
    \<and> (list_all isWhiteSpace s \<longrightarrow> parseFloat (JStr s) = Inr NaN)
    \<and> (\<not> isWhiteSpace c \<and> c \<notin> set (utf16 ''+-.0123456789I'') \<longrightarrow>
          parseFloat (JStr (c # r)) = Inr NaN)
    \<and> parseFloat (JStr (utf16 ''abc'')) = Inr NaN"
proof -
  have outcome:
    "(predict_handler (JArr xs) rnd = PredictionFailed) = (\<exists>i<9. ToString_throws (xs ! i))
     \<and> (predict_handler (JArr xs) rnd = NotNumericError) =
        ((\<forall>i<9. \<not> ToString_throws (xs ! i)) \<and> (\<exists>i<9. parseFloat (xs ! i) = Inr NaN))
     \<and> (predict_handler (JArr xs) rnd \<noteq> PredictionFailed
        \<and> predict_handler (JArr xs) rnd \<noteq> NotNumericError \<longrightarrow>
          (\<exists>nums. js_map parseFloat xs = Inr nums
             \<and> predict_handler (JArr xs) rnd =
                 \<lparr>status = 200, json = Prediction (mockPredict nums rnd)\<rparr>))"
  proof (cases "\<exists>i<9. ToString_throws (xs ! i)")
    case True
    with assms have "js_map parseFloat xs = Inl TypeError" by (simp add: some_throws)
    then have "predict_handler (JArr xs) rnd = PredictionFailed"
      by (simp add: handler_array [OF assms])
    with True show ?thesis
      by (auto simp: PredictionFailed_def NotNumericError_def)
  next
    case False
    from none_throws [OF assms False] obtain nums where n: "js_map parseFloat xs = Inr nums"
      and len: "length nums = 9"
      and nth: "\<And>i. i < 9 \<Longrightarrow> parseFloat (xs ! i) = Inr (nums ! i)"
      by blast
    from n have h: "predict_handler (JArr xs) rnd =
        (if list_ex isNaN nums then NotNumericError
         else \<lparr>status = 200, json = Prediction (mockPredict nums rnd)\<rparr>)"
      by (simp add: handler_array [OF assms])
    note nan = some_NaN [OF len nth]
    show ?thesis
    proof (cases "list_ex isNaN nums")
      case True
      with h have "predict_handler (JArr xs) rnd = NotNumericError" by simp
      with True False nan show ?thesis
        by (auto simp: PredictionFailed_def NotNumericError_def)
    next
      case nonan: False
      with h have "predict_handler (JArr xs) rnd =
          \<lparr>status = 200, json = Prediction (mockPredict nums rnd)\<rparr>"
        by simp
      with nonan False nan n show ?thesis
        by (auto simp: PredictionFailed_def NotNumericError_def)
    qed
  qed
  moreover have "(parseFloat (JStr s) = Inr NaN) =
      (\<not> hasLiteralPrefix (dropWhile isWhiteSpace s))"
    by (simp add: parseFloat_str_NaN_iff)
  moreover have "list_all isWhiteSpace s \<longrightarrow> parseFloat (JStr s) = Inr NaN"
    by (simp add: parseFloat_blank)
  moreover have "\<not> isWhiteSpace c \<and> c \<notin> set (utf16 ''+-.0123456789I'') \<longrightarrow>
      parseFloat (JStr (c # r)) = Inr NaN"
    using parseFloat_no_literal [of c r] by simp
  moreover have "parseFloat (JStr (utf16 ''abc'')) = Inr NaN"
    by code_simp
  ultimately show ?thesis by (intro conjI) (elim conjE, assumption)+
qed

theorem validation_rejects_exactly_unparsable_witness:
  "length abc_features = 9
   \<and> parseFloat (abc_features ! 0) = Inr NaN
   \<and> predict_handler (JArr abc_features) zero_draws = NotNumericError
   \<and> \<not> hasLiteralPrefix (utf16 ''abc'')
   \<and> parseFloat (JStr [0x20, 0x09]) = Inr NaN
   \<and> parseFloat (JStr []) = Inr NaN
   \<and> parseFloat (JStr (utf16 ''12abc'')) = Inr (Fin 12)
   \<and> hasLiteralPrefix (utf16 ''12abc'')
   \<and> parseFloat (JStr [0xA0, cu CHR ''5'']) = Inr (Fin 5)
   \<and> predict_handler (JArr toString_features) zero_draws = PredictionFailed"
proof -
  have len: "length abc_features = 9" by (simp add: abc_features_def)
  have nan: "parseFloat (abc_features ! 0) = Inr NaN" by code_simp
  then have ex: "\<exists>i<9. parseFloat (abc_features ! i) = Inr NaN" by (intro exI [of _ 0]) simp
  have "js_map parseFloat abc_features \<noteq> Inl TypeError" by code_simp
  then have nt: "\<forall>i<9. \<not> ToString_throws (abc_features ! i)"
    by (simp add: some_throws [OF len])
  have ws: "list_all isWhiteSpace [0x20, 0x09]" by (simp add: isWhiteSpace_def)
  note t = validation_rejects_exactly_unparsable
    [OF len, where rnd = zero_draws and c = "cu CHR ''a''" and r = "utf16 ''bc''"]
  from t [where s = "[0x20, 0x09]"] ex nt
  have a: "predict_handler (JArr abc_features) zero_draws = NotNumericError" by blast
  from t [where s = "[0x20, 0x09]"] ws
  have b: "parseFloat (JStr [0x20, 0x09]) = Inr NaN" by blast
  have "list_all isWhiteSpace []" by simp
  with t [where s = "[]"] have c: "parseFloat (JStr []) = Inr NaN" by blast
  have da: "dropWhile isWhiteSpace (utf16 ''abc'') = utf16 ''abc''" by code_simp
  from t [where s = "utf16 ''abc''"] have "parseFloat (JStr (utf16 ''abc'')) = Inr NaN"
    and "(parseFloat (JStr (utf16 ''abc'')) = Inr NaN) =
      (\<not> hasLiteralPrefix (dropWhile isWhiteSpace (utf16 ''abc'')))"
    by blast+
  with da have d: "\<not> hasLiteralPrefix (utf16 ''abc'')" by simp
  have p: "parseFloat (JStr (utf16 ''12abc'')) = Inr (Fin 12)" by code_simp
  have dp: "dropWhile isWhiteSpace (utf16 ''12abc'') = utf16 ''12abc''" by code_simp
  from t [where s = "utf16 ''12abc''"] have
    "(parseFloat (JStr (utf16 ''12abc'')) = Inr NaN) =
      (\<not> hasLiteralPrefix (dropWhile isWhiteSpace (utf16 ''12abc'')))"
    by blast
  with p dp have e: "hasLiteralPrefix (utf16 ''12abc'')" by simp
  have f: "parseFloat (JStr [0xA0, cu CHR ''5'']) = Inr (Fin 5)" by code_simp
  have lt: "length toString_features = 9" by (simp add: toString_features_def)
  have "ToString_throws (toString_features ! 0)" by code_simp
  then have "\<exists>i<9. ToString_throws (toString_features ! i)" by (intro exI [of _ 0]) simp
  with validation_rejects_exactly_unparsable
    [OF lt, where rnd = zero_draws and s = "[]" and c = "cu CHR ''a''" and r = "[]"]
  have g: "predict_handler (JArr toString_features) zero_draws = PredictionFailed" by blast
  from len nan a d b c p e f g show ?thesis by (intro conjI)
qed

text \<open>
  The claim as stated lets no element through that does not denote a finite number. The
  string \<open>Infinity\<close> parses to the number Infinity, which is not NaN: the input is
  accepted and scored. So is a decimal too large for a double, such as \<open>1e400\<close>. An
  element that is the object \<open>{"toString": 1}\<close> cannot be parsed to a number either; its
  conversion throws, and the answer is the 500 error, not the not-numeric error.
\<close>

theorem validation_accepts_infinity_counterexample:
  "length infinity_features = 9
   \<and> parseFloat (infinity_features ! 0) = Inr PosInf
   \<and> predict_handler (JArr infinity_features) zero_draws \<noteq> NotNumericError
   \<and> status (predict_handler (JArr infinity_features) zero_draws) = 200
   \<and> predict_handler (JArr infinity_features) zero_draws =
       \<lparr>status = 200,
        json = Prediction (mockPredict (PosInf # tl example_numbers) zero_draws)\<rparr>
   \<and> parseFloat (JStr (utf16 ''1e400'')) = Inr PosInf
   \<and> parseFloat (toString_features ! 0) = Inl TypeError
   \<and> predict_handler (JArr toString_features) zero_draws = PredictionFailed
   \<and> predict_handler (JArr toString_features) zero_draws \<noteq> NotNumericError"
proof -
  have len: "length infinity_features = 9" by (simp add: infinity_features_def)
  have inf: "parseFloat (infinity_features ! 0) = Inr PosInf" by code_simp
  have m: "js_map parseFloat infinity_features = Inr (PosInf # tl example_numbers)"
    by code_simp
  have no: "\<not> list_ex isNaN (PosInf # tl example_numbers)" by code_simp
  have r: "predict_handler (JArr infinity_features) zero_draws =
       \<lparr>status = 200,
        json = Prediction (mockPredict (PosInf # tl example_numbers) zero_draws)\<rparr>"
    unfolding handler_array [OF len] m using no by simp
  have ne: "predict_handler (JArr infinity_features) zero_draws \<noteq> NotNumericError"
    unfolding r by (simp add: NotNumericError_def)
  have st: "status (predict_handler (JArr infinity_features) zero_draws) = 200"
    unfolding r by simp
  have big: "parseFloat (JStr (utf16 ''1e400'')) = Inr PosInf" by code_simp
  have lt: "length toString_features = 9" by (simp add: toString_features_def)
  have th: "parseFloat (toString_features ! 0) = Inl TypeError" by code_simp
  have "js_map parseFloat toString_features = Inl TypeError" by code_simp
  then have pf: "predict_handler (JArr toString_features) zero_draws = PredictionFailed"
    by (simp add: handler_array [OF lt])
  then have pn: "predict_handler (JArr toString_features) zero_draws \<noteq> NotNumericError"
    by (simp add: PredictionFailed_def NotNumericError_def)
  from len inf ne st r big th pf pn show ?thesis by (intro conjI)
qed

text \<open>
  Claim C5. An array whose length is not 9, and any other value that is falsy or whose
  \<open>length\<close> is not 9, is answered with the shape error. A shape or not-numeric error has
  status 400, carries no prediction and is the same whatever the random source holds; a
  prediction is only ever returned for a nine-element array whose elements all parse.
\<close>

theorem wrong_count_is_shape_error:
  "(length xs \<noteq> 9 \<longrightarrow> predict_handler (JArr xs) rnd = ShapeError)
   \<and> (\<not> truthy raw \<or> get_length raw \<noteq> JNum (Fin 9) \<longrightarrow> predict_handler raw rnd = ShapeError)
   \<and> (predict_handler raw rnd = ShapeError \<or> predict_handler raw rnd = NotNumericError \<longrightarrow>
         status (predict_handler raw rnd) = 400
         \<and> (\<forall>p. json (predict_handler raw rnd) \<noteq> Prediction p)
         \<and> (\<forall>rnd'. predict_handler raw rnd' = predict_handler raw rnd))
   \<and> (json (predict_handler raw rnd) = Prediction p \<longrightarrow>
         (\<exists>fs nums. raw = JArr fs \<and> length fs = 9 \<and> js_map parseFloat fs = Inr nums
            \<and> \<not> list_ex isNaN nums \<and> p = mockPredict nums rnd))"
proof (intro conjI impI allI)
  assume "length xs \<noteq> 9"
  then have "\<not> truthy (JArr xs) \<or> get_length (JArr xs) \<noteq> JNum (Fin 9)" by simp
  then show "predict_handler (JArr xs) rnd = ShapeError" by (rule handler_shape)
next
  assume "\<not> truthy raw \<or> get_length raw \<noteq> JNum (Fin 9)"
  then show "predict_handler raw rnd = ShapeError" by (rule handler_shape)
next
  assume "predict_handler raw rnd = ShapeError \<or> predict_handler raw rnd = NotNumericError"
  then show "status (predict_handler raw rnd) = 400" by (rule handler_error_body)
next
  fix q
  assume "predict_handler raw rnd = ShapeError \<or> predict_handler raw rnd = NotNumericError"
  then show "json (predict_handler raw rnd) \<noteq> Prediction q" by (rule handler_error_body)
next
  fix rnd'
  assume "predict_handler raw rnd = ShapeError \<or> predict_handler raw rnd = NotNumericError"
  then show "predict_handler raw rnd' = predict_handler raw rnd" by (rule handler_independent)
next
  assume "json (predict_handler raw rnd) = Prediction p"
  then have "predict_handler raw rnd = \<lparr>status = 200, json = Prediction p\<rparr>"
    by (rule handler_prediction)
  then obtain fs nums where "raw = JArr fs" "length fs = 9" "js_map parseFloat fs = Inr nums"
    "\<not> list_ex isNaN nums" "p = mockPredict nums rnd"
    by (rule handler_success)
  then show "\<exists>fs nums. raw = JArr fs \<and> length fs = 9 \<and> js_map parseFloat fs = Inr nums
            \<and> \<not> list_ex isNaN nums \<and> p = mockPredict nums rnd"
    by blast
qed

theorem wrong_count_is_shape_error_witness:
  "length (tl example_features) = 8
   \<and> predict_handler (JArr (tl example_features)) zero_draws = ShapeError
   \<and> status (predict_handler (JArr (tl example_features)) zero_draws) = 400
   \<and> json (predict_handler (JArr (tl example_features)) zero_draws) =
       Error ''Invalid input: Expected 9 features''
   \<and> predict_handler (JArr (tl example_features)) tenth_draws = ShapeError"
proof -
  have len: "length (tl example_features) = 8" by (simp add: example_features_def)
  then have ne: "length (tl example_features) \<noteq> 9" by simp
  note w = wrong_count_is_shape_error
    [of "tl example_features" zero_draws "JArr (tl example_features)"]
  from w ne have a: "predict_handler (JArr (tl example_features)) zero_draws = ShapeError"
    by blast
  from w a have b: "status (predict_handler (JArr (tl example_features)) zero_draws) = 400"
    by blast
  from w a have e: "predict_handler (JArr (tl example_features)) tenth_draws =
      predict_handler (JArr (tl example_features)) zero_draws"
    by blast
  from e a have c: "predict_handler (JArr (tl example_features)) tenth_draws = ShapeError"
    by (rule trans)
  from a have d: "json (predict_handler (JArr (tl example_features)) zero_draws) =
       Error ''Invalid input: Expected 9 features''"
    by (simp add: ShapeError_def)
  from len a b d c show ?thesis by (intro conjI)
qed

end
